theory Spec2Isabelle
  imports Complex_Main "HOL-Library.Word" "HOL-Library.Stream"
begin

section \<open>The .skita container engine of SandiKita\<close>

text \<open>
  A shallow embedding of \<^verbatim>\<open>src/lib/crypto-utils.ts\<close> and of the first (hash-carrying)
  version of \<^verbatim>\<open>src/lib/crypto-worker.ts\<close>. Byte buffers (\<^verbatim>\<open>Uint8Array\<close>,
  \<^verbatim>\<open>ArrayBuffer\<close>, \<^verbatim>\<open>Blob\<close>) are lists of 8-bit words, JavaScript strings are lists of
  UTF-16 code units, JavaScript numbers that hold sizes, counts and indices are natural
  numbers, and every exception is a value \<open>Inl e\<close> of a sum type. Progress callbacks and
  the 500 ms pause of \<^verbatim>\<open>decryptFile\<close> have no effect on any returned value and are left out.
\<close>

subsection \<open>Bytes, strings and errors\<close>

type_synonym byte = "8 word"
type_synonym bytes = "byte list"
type_synonym jsstring = "16 word list"

text \<open>
  The exceptions the code can raise: \<open>RangeError\<close> comes from a \<^verbatim>\<open>DataView\<close> access or a
  typed-array \<^verbatim>\<open>set\<close> outside the buffer, \<open>OperationError\<close> is the rejection of
  \<^verbatim>\<open>crypto.subtle.decrypt\<close>, \<open>KdfFailure\<close> is the error that the Argon2id library throws
  on input that it does not accept, the other three are the \<^verbatim>\<open>throw new Error(...)\<close>
  statements of \<^verbatim>\<open>deserializeHeader\<close> and \<^verbatim>\<open>decryptFile\<close>. For the first three only the
  kind matters; their messages are the platform's.
\<close>

datatype error =
  RangeError | OperationError | KdfFailure | InvalidFormat | DecryptFailed | VerifyFailed

fun message :: "error \<Rightarrow> string" where
  "message RangeError = ''Offset is outside the bounds of the DataView''"
| "message OperationError = ''The operation failed for an operation-specific reason''"
| "message KdfFailure = ''Argon2id rejected its input''"
| "message InvalidFormat = ''Invalid file format: not a .skita file''"
| "message DecryptFailed = ''Dekripsi gagal: Password salah atau file rusak''"
| "message VerifyFailed = ''Verifikasi gagal: File mungkin rusak atau telah dimodifikasi''"

definition bindE :: "error + 'a \<Rightarrow> ('a \<Rightarrow> error + 'b) \<Rightarrow> error + 'b" where
  "bindE m f = (case m of Inl e \<Rightarrow> Inl e | Inr x \<Rightarrow> f x)"

subsection \<open>Typed arrays and DataView\<close>

text \<open>
  \<^verbatim>\<open>a.slice(s, e)\<close> on a typed array and \<^verbatim>\<open>blob.slice(s, e)\<close> on a \<^verbatim>\<open>Blob\<close>, for
  non-negative \<open>s\<close> and \<open>e\<close>: both clamp to the length and give the empty sequence
  when \<open>e \<le> s\<close>.
\<close>

definition slice :: "'a list \<Rightarrow> nat \<Rightarrow> nat \<Rightarrow> 'a list" where
  "slice xs s e = take (e - s) (drop s xs)"

text \<open>
  Writing the bytes \<open>src\<close> into \<open>buf\<close> at \<open>off\<close>: \<^verbatim>\<open>buf.set(src, off)\<close>. It raises a
  RangeError when the source does not fit.
\<close>

definition write_at :: "bytes \<Rightarrow> nat \<Rightarrow> bytes \<Rightarrow> error + bytes" where
  "write_at buf off src =
     (if length buf < off + length src then Inl RangeError
      else Inr (take off buf @ src @ drop (off + length src) buf))"

text \<open>Big-endian encodings; \<open>of_nat\<close> into a byte keeps the low 8 bits.\<close>

definition be16 :: "nat \<Rightarrow> bytes" where
  "be16 v = [of_nat (v div 256), of_nat v]"

definition be32 :: "nat \<Rightarrow> bytes" where
  "be32 v = [of_nat (v div 16777216), of_nat (v div 65536), of_nat (v div 256), of_nat v]"

text \<open>
  \<^verbatim>\<open>view.setUint8(off, v)\<close>, \<^verbatim>\<open>view.setUint16(off, v, false)\<close> and
  \<^verbatim>\<open>view.setUint32(off, v, false)\<close>: the value is reduced modulo the field width and
  written big-endian; an access outside the buffer raises a RangeError.
\<close>

definition setUint8 :: "bytes \<Rightarrow> nat \<Rightarrow> nat \<Rightarrow> error + bytes" where
  "setUint8 buf off v = write_at buf off [of_nat v]"

definition setUint16 :: "bytes \<Rightarrow> nat \<Rightarrow> nat \<Rightarrow> error + bytes" where
  "setUint16 buf off v = write_at buf off (be16 v)"

definition setUint32 :: "bytes \<Rightarrow> nat \<Rightarrow> nat \<Rightarrow> error + bytes" where
  "setUint32 buf off v = write_at buf off (be32 v)"

definition getUint8 :: "bytes \<Rightarrow> nat \<Rightarrow> error + nat" where
  "getUint8 buf off =
     (if length buf < off + 1 then Inl RangeError else Inr (unat (buf ! off)))"

definition getUint16 :: "bytes \<Rightarrow> nat \<Rightarrow> error + nat" where
  "getUint16 buf off =
     (if length buf < off + 2 then Inl RangeError
      else Inr (unat (buf ! off) * 256 + unat (buf ! (off + 1))))"

definition getUint32 :: "bytes \<Rightarrow> nat \<Rightarrow> error + nat" where
  "getUint32 buf off =
     (if length buf < off + 4 then Inl RangeError
      else Inr (unat (buf ! off) * 16777216 + unat (buf ! (off + 1)) * 65536
                + unat (buf ! (off + 2)) * 256 + unat (buf ! (off + 3))))"

text \<open>The value of a byte sequence read as one big-endian number.\<close>

definition be_value :: "bytes \<Rightarrow> nat" where
  "be_value bs = foldl (\<lambda>acc b. acc * 256 + unat b) 0 bs"

subsection \<open>Chunk nonce\<close>

text \<open>
  \<^verbatim>\<open>deriveChunkNonce(masterNonce, chunkIndex)\<close>: a fresh zeroed 12-byte buffer receives
  \<^verbatim>\<open>masterNonce.slice(0, 8)\<close> at offset 0 and the index as a big-endian u32 at offset 8.
\<close>

definition deriveChunkNonce :: "bytes \<Rightarrow> nat \<Rightarrow> error + bytes" where
  "deriveChunkNonce masterNonce chunkIndex =
     bindE (write_at (replicate 12 0) 0 (slice masterNonce 0 8)) (\<lambda>nonce.
       setUint32 nonce 8 chunkIndex)"

subsection \<open>Strings: UTF-8 encoding and number rendering\<close>

text \<open>
  \<^verbatim>\<open>new TextEncoder().encode(s)\<close>: the UTF-16 code units are first read as code points (a
  high surrogate followed by a low surrogate is one supplementary code point, any other
  surrogate becomes U+FFFD), and each code point is written in UTF-8.
\<close>

definition is_high_surrogate :: "16 word \<Rightarrow> bool" where
  "is_high_surrogate u = (55296 \<le> unat u \<and> unat u \<le> 56319)"

definition is_low_surrogate :: "16 word \<Rightarrow> bool" where
  "is_low_surrogate u = (56320 \<le> unat u \<and> unat u \<le> 57343)"

fun code_points :: "jsstring \<Rightarrow> nat list" where
  "code_points [] = []"
| "code_points [u] =
     [if is_high_surrogate u \<or> is_low_surrogate u then 65533 else unat u]"
| "code_points (u # l # us) =
     (if is_high_surrogate u \<and> is_low_surrogate l
      then (65536 + (unat u - 55296) * 1024 + (unat l - 56320)) # code_points us
      else if is_high_surrogate u \<or> is_low_surrogate u then 65533 # code_points (l # us)
      else unat u # code_points (l # us))"

definition utf8_bytes :: "nat \<Rightarrow> bytes" where
  "utf8_bytes c =
     (if c < 128 then [of_nat c]
      else if c < 2048 then [of_nat (192 + c div 64), of_nat (128 + c mod 64)]
      else if c < 65536
      then [of_nat (224 + c div 4096), of_nat (128 + c div 64 mod 64), of_nat (128 + c mod 64)]
      else [of_nat (240 + c div 262144), of_nat (128 + c div 4096 mod 64),
            of_nat (128 + c div 64 mod 64), of_nat (128 + c mod 64)])"

definition utf8_encode :: "jsstring \<Rightarrow> bytes" where
  "utf8_encode s = concat (map utf8_bytes (code_points s))"

text \<open>A string literal of the source, all of whose characters are ASCII.\<close>

definition ascii :: "string \<Rightarrow> jsstring" where
  "ascii s = map of_char s"

text \<open>
  The rendering of a number inside a template literal, \<^verbatim>\<open>`${n}`\<close>, for the non-negative
  integers below \<open>10^21\<close>: the decimal digits, most significant first.
\<close>

function number_toString :: "nat \<Rightarrow> jsstring" where
  "number_toString n =
     (if n < 10 then [of_nat (48 + n)]
      else number_toString (n div 10) @ [of_nat (48 + n mod 10)])"
  by pat_completeness auto
termination
  by (relation "measure (\<lambda>n. n)") auto

declare number_toString.simps [simp del]

text \<open>Lowercase hexadecimal, two digits a byte.\<close>

definition hex_digit :: "nat \<Rightarrow> 16 word" where
  "hex_digit d = (if d < 10 then of_nat (48 + d) else of_nat (87 + d))"

definition hex_string :: "bytes \<Rightarrow> jsstring" where
  "hex_string bs = concat (map (\<lambda>b. [hex_digit (unat b div 16), hex_digit (unat b mod 16)]) bs)"

subsection \<open>The platform\<close>

text \<open>
  What the code calls and does not define: SHA-256 (\<^verbatim>\<open>crypto.subtle.digest\<close>), Argon2id
  (\<^verbatim>\<open>hash-wasm\<close>; arguments in the order password, salt, iterations, memory size,
  parallelism; 32 bytes of output, or an error where the library rejects the password or
  the parameters), AES-GCM with a 128-bit tag
  (\<^verbatim>\<open>crypto.subtle.encrypt\<close> and \<^verbatim>\<open>decrypt\<close>; arguments key, nonce, data; decryption
  gives \<open>None\<close> where the promise is rejected) and \<^verbatim>\<open>new TextDecoder().decode\<close>. They
  are parameters of the model. The random generator is a stream of bytes that
  \<^verbatim>\<open>crypto.getRandomValues\<close> consumes.
\<close>

record platform =
  sha256 :: "bytes \<Rightarrow> bytes"
  argon2id :: "jsstring \<Rightarrow> bytes \<Rightarrow> nat \<Rightarrow> nat \<Rightarrow> nat \<Rightarrow> error + bytes"
  aes_gcm_encrypt :: "bytes \<Rightarrow> bytes \<Rightarrow> bytes \<Rightarrow> bytes"
  aes_gcm_decrypt :: "bytes \<Rightarrow> bytes \<Rightarrow> bytes \<Rightarrow> bytes option"
  text_decode :: "bytes \<Rightarrow> jsstring"

definition generateRandomBytes :: "nat \<Rightarrow> byte stream \<Rightarrow> bytes \<times> byte stream" where
  "generateRandomBytes len rng = (stake len rng, sdrop len rng)"

definition generateSalt :: "byte stream \<Rightarrow> bytes \<times> byte stream" where
  "generateSalt rng = generateRandomBytes 32 rng"

definition generateNonce :: "byte stream \<Rightarrow> bytes \<times> byte stream" where
  "generateNonce rng = generateRandomBytes 12 rng"

subsection \<open>File format constants and the header\<close>

definition MAGIC_BYTES :: bytes where
  "MAGIC_BYTES = [83, 75, 84, 65]"

definition FORMAT_VERSION :: nat where
  "FORMAT_VERSION = 1"

definition CHUNK_SIZE :: nat where
  "CHUNK_SIZE = 4 * 1024 * 1024"

datatype Algorithm = AES_GCM | ChaCha20_Poly1305

datatype KDF = Argon2id

record FileHeader =
  magic :: bytes
  version :: nat
  algorithm :: Algorithm
  kdf :: KDF
  kdfMemory :: nat
  kdfIterations :: nat
  kdfParallelism :: nat
  salt :: bytes
  chunkSize :: nat
  originalFilename :: jsstring
  originalSize :: nat
  totalChunks :: nat

text \<open>
  Modelled from the spec: \<^verbatim>\<open>FileHeaderV2\<close>, the type of the header that the worker builds,
  imported from \<^verbatim>\<open>crypto-utils\<close> and declared nowhere in the sources at hand. It is the
  header above with the plaintext hash, a string of 64 hexadecimal characters, added.
\<close>

record FileHeaderV2 = FileHeader +
  originalHash :: jsstring

text \<open>
  \<^verbatim>\<open>serializeHeader\<close>. The buffer has \<open>63 + F\<close> zero bytes, \<open>F\<close> the UTF-8 length of the
  file name; the source's running \<^verbatim>\<open>offset\<close> takes the values 0, 4, 6, 7, 8, 12, 16, 17,
  49, 53, 57, 61 and 63 whatever the header holds. The function reads the twelve fields of
  \<^verbatim>\<open>FileHeader\<close> and no other property of its argument.
\<close>

definition serializeHeader :: "'a FileHeader_scheme \<Rightarrow> error + bytes" where
  "serializeHeader header =
     (let filenameBytes = utf8_encode (originalFilename header);
          headerSize = 4 + 2 + 1 + 1 + 4 + 4 + 1 + 32 + 4 + 4 + 4 + 2 + length filenameBytes
      in
      bindE (write_at (replicate headerSize 0) 0 (magic header)) (\<lambda>b.
      bindE (setUint16 b 4 (version header)) (\<lambda>b.
      bindE (setUint8 b 6 (if algorithm header = AES_GCM then 0 else 1)) (\<lambda>b.
      bindE (setUint8 b 7 0) (\<lambda>b.
      bindE (setUint32 b 8 (kdfMemory header)) (\<lambda>b.
      bindE (setUint32 b 12 (kdfIterations header)) (\<lambda>b.
      bindE (setUint8 b 16 (kdfParallelism header)) (\<lambda>b.
      bindE (write_at b 17 (salt header)) (\<lambda>b.
      bindE (setUint32 b 49 (chunkSize header)) (\<lambda>b.
      bindE (setUint32 b 53 (originalSize header)) (\<lambda>b.
      bindE (setUint32 b 57 (totalChunks header)) (\<lambda>b.
      bindE (setUint16 b 61 (length filenameBytes)) (\<lambda>b.
      write_at b 63 filenameBytes)))))))))))))"

text \<open>
  \<^verbatim>\<open>magic.every((b, i) => b === MAGIC_BYTES[i])\<close> on \<^verbatim>\<open>magic = data.slice(0, 4)\<close>, which
  has at most four bytes (fewer when the data is shorter).
\<close>

definition magic_ok :: "bytes \<Rightarrow> bool" where
  "magic_ok m = list_all (\<lambda>(b, c). b = c) (zip m MAGIC_BYTES)"

text \<open>
  \<^verbatim>\<open>deserializeHeader\<close>. The KDF byte is read and ignored; any algorithm byte other than 0
  is taken for ChaCha20-Poly1305.
\<close>

definition deserializeHeader :: "platform \<Rightarrow> bytes \<Rightarrow> error + FileHeader" where
  "deserializeHeader pf data =
     (let magic = slice data 0 4 in
      if \<not> magic_ok magic then Inl InvalidFormat
      else
      bindE (getUint16 data 4) (\<lambda>version.
      bindE (getUint8 data 6) (\<lambda>algoId.
      let algorithm = (if algoId = 0 then AES_GCM else ChaCha20_Poly1305) in
      bindE (getUint8 data 7) (\<lambda>kdfId.
      let kdf = Argon2id in
      bindE (getUint32 data 8) (\<lambda>kdfMemory.
      bindE (getUint32 data 12) (\<lambda>kdfIterations.
      bindE (getUint8 data 16) (\<lambda>kdfParallelism.
      let salt = slice data 17 (17 + 32) in
      bindE (getUint32 data 49) (\<lambda>chunkSize.
      bindE (getUint32 data 53) (\<lambda>originalSize.
      bindE (getUint32 data 57) (\<lambda>totalChunks.
      bindE (getUint16 data 61) (\<lambda>filenameLength.
      let filenameBytes = slice data 63 (63 + filenameLength);
          originalFilename = text_decode pf filenameBytes
      in Inr \<lparr>magic = magic, version = version, algorithm = algorithm, kdf = kdf,
               kdfMemory = kdfMemory, kdfIterations = kdfIterations,
               kdfParallelism = kdfParallelism, salt = salt, chunkSize = chunkSize,
               originalFilename = originalFilename, originalSize = originalSize,
               totalChunks = totalChunks\<rparr>)))))))))))"

text \<open>\<^verbatim>\<open>getHeaderSize\<close>: the fixed size plus the u16 read at offset 56.\<close>

definition getHeaderSize :: "bytes \<Rightarrow> error + nat" where
  "getHeaderSize data =
     (let fixedSize = 4 + 2 + 1 + 1 + 4 + 4 + 1 + 32 + 4 + 4 + 4 + 2 in
      bindE (getUint16 data 56) (\<lambda>filenameLength.
      Inr (fixedSize + filenameLength)))"

subsection \<open>Keys\<close>

text \<open>
  \<^verbatim>\<open>deriveChunkKey\<close>. A \<^verbatim>\<open>CryptoKey\<close> is modelled by its raw bytes, so \<^verbatim>\<open>exportKey\<close> and
  \<^verbatim>\<open>importKey\<close> are the identity. The combined buffer is allocated zeroed and filled by
  two \<^verbatim>\<open>set\<close> calls.
\<close>

definition deriveChunkKey :: "platform \<Rightarrow> bytes \<Rightarrow> nat \<Rightarrow> error + bytes" where
  "deriveChunkKey pf masterKey chunkIndex =
     (let masterKeyBytes = masterKey;
          info = utf8_encode (ascii ''chunk-'' @ number_toString chunkIndex)
      in
      bindE (write_at (replicate (length masterKeyBytes + length info) 0) 0 masterKeyBytes)
        (\<lambda>combined.
      bindE (write_at combined (length masterKeyBytes) info) (\<lambda>combined.
      Inr (sha256 pf combined))))"

text \<open>
  \<^verbatim>\<open>deriveChunkKeyBytes\<close>, \<^verbatim>\<open>deriveKeyArgon2Bytes\<close> and \<^verbatim>\<open>calculateHash\<close> are imported by
  the worker from \<^verbatim>\<open>crypto-utils\<close> and are not in the sources at hand.
\<close>

text \<open>
  Modelled from the spec: \<^verbatim>\<open>deriveChunkKeyBytes\<close>, the chunk subkey
  \<open>SHA-256(MS \<parallel> utf8("chunk-" \<parallel> decimal(i)))\<close> as raw bytes.
\<close>

definition deriveChunkKeyBytes :: "platform \<Rightarrow> bytes \<Rightarrow> nat \<Rightarrow> bytes" where
  "deriveChunkKeyBytes pf masterKeyBytes chunkIndex =
     sha256 pf (masterKeyBytes @ utf8_encode (ascii ''chunk-'' @ number_toString chunkIndex))"

text \<open>
  Modelled from the spec: \<^verbatim>\<open>deriveKeyArgon2Bytes\<close>, the master secret
  \<open>Argon2id(password, salt, params)\<close> as raw bytes, or the failure of the key derivation
  (\<open>KdfFailure\<close> in the spec); the arguments reach the library as in \<^verbatim>\<open>deriveKeyArgon2\<close>.
\<close>

definition deriveKeyArgon2Bytes ::
  "platform \<Rightarrow> jsstring \<Rightarrow> bytes \<Rightarrow> nat \<Rightarrow> nat \<Rightarrow> nat \<Rightarrow> error + bytes" where
  "deriveKeyArgon2Bytes pf password saltBytes memory iterations parallelism =
     argon2id pf password saltBytes iterations memory parallelism"

text \<open>
  Modelled from the spec: \<^verbatim>\<open>calculateHash\<close>, SHA-256 of the bytes as 64 lowercase
  hexadecimal characters.
\<close>

definition calculateHash :: "platform \<Rightarrow> bytes \<Rightarrow> jsstring" where
  "calculateHash pf data = hex_string (sha256 pf data)"

text \<open>
  \<^verbatim>\<open>encryptChunk\<close> and \<^verbatim>\<open>decryptChunk\<close> take data, key and nonce and always use AES-GCM;
  the algorithm that the worker passes as a fourth argument is not a parameter of either.
\<close>

definition encryptChunk :: "platform \<Rightarrow> bytes \<Rightarrow> bytes \<Rightarrow> bytes \<Rightarrow> bytes" where
  "encryptChunk pf data key nonce = aes_gcm_encrypt pf key nonce data"

definition decryptChunk :: "platform \<Rightarrow> bytes \<Rightarrow> bytes \<Rightarrow> bytes \<Rightarrow> error + bytes" where
  "decryptChunk pf data key nonce =
     (case aes_gcm_decrypt pf key nonce data of
        None \<Rightarrow> Inl OperationError
      | Some decrypted \<Rightarrow> Inr decrypted)"

subsection \<open>The worker: files, options and results\<close>

text \<open>A \<^verbatim>\<open>File\<close> is a name and a byte content; \<^verbatim>\<open>file.size\<close> is the length of the content.\<close>

record File =
  name :: jsstring
  content :: bytes

definition file_size :: "File \<Rightarrow> nat" where
  "file_size f = length (content f)"

text \<open>
  \<^verbatim>\<open>DecryptOptions\<close> holds the file (\<open>infile\<close>) and the password; \<^verbatim>\<open>EncryptOptions\<close> adds the algorithm
  and the three optional KDF parameters (\<open>None\<close> where the caller leaves one out).
\<close>

record DecryptOptions =
  infile :: File
  password :: jsstring

record EncryptOptions = DecryptOptions +
  opt_algorithm :: Algorithm
  opt_kdfMemory :: "nat option"
  opt_kdfIterations :: "nat option"
  opt_kdfParallelism :: "nat option"

record EncryptResult =
  enc_blob :: bytes
  enc_filename :: jsstring
  enc_originalHash :: jsstring

record DecryptResult =
  blob :: bytes
  filename :: jsstring
  verified :: bool
  dec_originalHash :: "jsstring option"
  decryptedHash :: "jsstring option"

subsection \<open>The worker: hashing the input\<close>

text \<open>\<^verbatim>\<open>Math.ceil(a / b)\<close> for natural \<open>a\<close> and positive \<open>b\<close>.\<close>

definition ceil_div :: "nat \<Rightarrow> nat \<Rightarrow> nat" where
  "ceil_div a b = (a + b - 1) div b"

function hashFileData_loop :: "File \<Rightarrow> nat \<Rightarrow> nat \<Rightarrow> bytes list \<Rightarrow> bytes list" where
  "hashFileData_loop f n i chunks =
     (if i < n then
        (let start = i * CHUNK_SIZE;
             stop = min (start + CHUNK_SIZE) (file_size f);
             chunkData = slice (content f) start stop
         in hashFileData_loop f n (i + 1) (chunks @ [chunkData]))
      else chunks)"
  by pat_completeness auto
termination
  by (relation "measure (\<lambda>(f, n, i, chunks). n - i)") auto

declare hashFileData_loop.simps [simp del]

text \<open>
  \<^verbatim>\<open>hashFileData\<close> returns the hash and the chunks. Its copy loop lays the chunks end to
  end in a buffer of their total size, which is their concatenation.
\<close>

definition hashFileData :: "platform \<Rightarrow> File \<Rightarrow> jsstring \<times> bytes list" where
  "hashFileData pf f =
     (let totalChunks = ceil_div (file_size f) CHUNK_SIZE;
          chunks = hashFileData_loop f totalChunks 0 [];
          combined = concat chunks;
          hash = calculateHash pf combined
      in (hash, chunks))"

subsection \<open>The worker: encryption\<close>

text \<open>
  One chunk record: a zeroed buffer of \<open>4 + 12 + L\<close> bytes receives the length \<open>L\<close> of the
  encrypted chunk as a big-endian u32, the nonce at offset 4 and the encrypted chunk at
  offset 16.
\<close>

definition chunk_record :: "bytes \<Rightarrow> bytes \<Rightarrow> error + bytes" where
  "chunk_record chunkNonce encryptedChunk =
     bindE (setUint32 (replicate (4 + 12 + length encryptedChunk) 0) 0 (length encryptedChunk))
       (\<lambda>r.
     bindE (write_at r 4 chunkNonce) (\<lambda>r.
     write_at r 16 encryptedChunk))"

text \<open>
  The encryption loop of \<^verbatim>\<open>encryptFile\<close>. The algorithm reaches \<^verbatim>\<open>encryptChunk\<close> as a
  fourth argument, which that function does not have.
\<close>

function encrypt_loop ::
  "platform \<Rightarrow> Algorithm \<Rightarrow> bytes \<Rightarrow> bytes \<Rightarrow> bytes list \<Rightarrow> nat \<Rightarrow> nat \<Rightarrow> bytes list
     \<Rightarrow> error + bytes list" where
  "encrypt_loop pf algo masterKeyBytes masterNonce fileChunks n i chunks =
     (if i < n then
        (let chunkData = fileChunks ! i;
             chunkKeyBytes = deriveChunkKeyBytes pf masterKeyBytes i
         in case deriveChunkNonce masterNonce i of
              Inl e \<Rightarrow> Inl e
            | Inr chunkNonce \<Rightarrow>
               (let encryptedChunk = encryptChunk pf chunkData chunkKeyBytes chunkNonce
                in case chunk_record chunkNonce encryptedChunk of
                     Inl e \<Rightarrow> Inl e
                   | Inr chunkRecord \<Rightarrow>
                       encrypt_loop pf algo masterKeyBytes masterNonce fileChunks n
                         (i + 1) (chunks @ [chunkRecord])))
      else Inr chunks)"
  by pat_completeness auto
termination
  by (relation "measure (\<lambda>(pf, algo, mk, mn, fileChunks, n, i, chunks). n - i)")
    auto

declare encrypt_loop.simps [simp del]

text \<open>
  \<^verbatim>\<open>encryptFile\<close> up to the array \<^verbatim>\<open>chunks\<close>, whose first element is the serialized header
  and whose other elements are the chunk records; the hash is returned with it.
\<close>

definition encryptFile_chunks ::
  "platform \<Rightarrow> byte stream \<Rightarrow> EncryptOptions \<Rightarrow> error + jsstring \<times> bytes list" where
  "encryptFile_chunks pf rng options =
     (let f = infile options;
          kdfMemory = (case opt_kdfMemory options of None \<Rightarrow> 65536 | Some m \<Rightarrow> m);
          kdfIterations = (case opt_kdfIterations options of None \<Rightarrow> 3 | Some n \<Rightarrow> n);
          kdfParallelism = (case opt_kdfParallelism options of None \<Rightarrow> 4 | Some p \<Rightarrow> p);
          (hash, fileChunks) = hashFileData pf f;
          (saltBytes, rng1) = generateSalt rng;
          (masterNonce, rng2) = generateNonce rng1
      in
      bindE (deriveKeyArgon2Bytes pf (password options) saltBytes
               kdfMemory kdfIterations kdfParallelism) (\<lambda>masterKeyBytes.
      let totalChunks = length fileChunks;
          header = \<lparr>magic = MAGIC_BYTES, version = FORMAT_VERSION,
                    algorithm = opt_algorithm options, kdf = Argon2id,
                    kdfMemory = kdfMemory, kdfIterations = kdfIterations,
                    kdfParallelism = kdfParallelism, salt = saltBytes,
                    chunkSize = CHUNK_SIZE, originalFilename = name f,
                    originalSize = file_size f, totalChunks = totalChunks,
                    originalHash = hash\<rparr>
      in
      bindE (serializeHeader header) (\<lambda>headerBytes.
      bindE (encrypt_loop pf (opt_algorithm options) masterKeyBytes masterNonce fileChunks
               totalChunks 0 [headerBytes]) (\<lambda>chunks.
      Inr (hash, chunks)))))"

text \<open>
  \<^verbatim>\<open>encryptFile\<close>: the blob is the concatenation of the elements of \<^verbatim>\<open>chunks\<close>, the
  suggested name is the name of the file followed by \<^verbatim>\<open>.skita\<close>.
\<close>

definition encryptFile ::
  "platform \<Rightarrow> byte stream \<Rightarrow> EncryptOptions \<Rightarrow> error + EncryptResult" where
  "encryptFile pf rng options =
     bindE (encryptFile_chunks pf rng options) (\<lambda>(hash, chunks).
     Inr \<lparr>enc_blob = concat chunks,
          enc_filename = name (infile options) @ ascii ''.skita'',
          enc_originalHash = hash\<rparr>)"

subsection \<open>The worker: decryption\<close>

text \<open>
  The decryption loop of \<^verbatim>\<open>decryptFile\<close>, with its state: the index, the offset and the
  chunks decrypted so far. A rejection of \<^verbatim>\<open>decryptChunk\<close> is caught and replaced by the
  error of the worker; a RangeError of \<^verbatim>\<open>getUint32\<close> is outside the \<^verbatim>\<open>try\<close> block. The
  algorithm of the header reaches \<^verbatim>\<open>decryptChunk\<close> as a fourth argument, which that
  function does not have.
\<close>

function decrypt_loop ::
  "platform \<Rightarrow> Algorithm \<Rightarrow> bytes \<Rightarrow> bytes \<Rightarrow> nat \<Rightarrow> nat \<Rightarrow> nat \<Rightarrow> bytes list
     \<Rightarrow> error + nat \<times> bytes list" where
  "decrypt_loop pf algo fileBytes masterKeyBytes n i offset decryptedChunks =
     (if i < n then
        (let chunkHeaderData = slice fileBytes offset (offset + 16)
         in case getUint32 chunkHeaderData 0 of
              Inl e \<Rightarrow> Inl e
            | Inr encryptedLength \<Rightarrow>
               (let chunkNonce = slice chunkHeaderData 4 16;
                    encryptedData = slice fileBytes (offset + 16) (offset + 16 + encryptedLength);
                    chunkKeyBytes = deriveChunkKeyBytes pf masterKeyBytes i
                in case decryptChunk pf encryptedData chunkKeyBytes chunkNonce of
                     Inl e \<Rightarrow> Inl DecryptFailed
                   | Inr decryptedChunk \<Rightarrow>
                       decrypt_loop pf algo fileBytes masterKeyBytes n (i + 1)
                         (offset + 16 + encryptedLength) (decryptedChunks @ [decryptedChunk])))
      else Inr (offset, decryptedChunks))"
  by pat_completeness auto
termination
  by (relation "measure (\<lambda>(pf, algo, fileBytes, mk, n, i, offset, chunks). n - i)")
    auto

declare decrypt_loop.simps [simp del]

text \<open>
  \<^verbatim>\<open>header.originalHash\<close> in \<^verbatim>\<open>decryptFile\<close>: the object that \<^verbatim>\<open>deserializeHeader\<close> returns
  has the twelve properties of \<^verbatim>\<open>FileHeader\<close>, so the access yields \<^verbatim>\<open>undefined\<close>.
\<close>

definition header_originalHash :: "FileHeader \<Rightarrow> jsstring option" where
  "header_originalHash header = None"

text \<open>
  \<^verbatim>\<open>decryptFile\<close>. The header is parsed from the first 2048 bytes of the file, then the
  master key is derived, which may fail. The integrity check runs when \<^verbatim>\<open>header.originalHash\<close> is truthy, that is a non-empty string.
\<close>

definition decryptFile :: "platform \<Rightarrow> DecryptOptions \<Rightarrow> error + DecryptResult" where
  "decryptFile pf options =
     (let fileBytes = content (infile options);
          headerData = slice fileBytes 0 2048
      in
      bindE (deserializeHeader pf headerData) (\<lambda>header.
      bindE (getHeaderSize headerData) (\<lambda>headerSize.
      bindE (deriveKeyArgon2Bytes pf (password options) (salt header)
               (kdfMemory header) (kdfIterations header) (kdfParallelism header))
        (\<lambda>masterKeyBytes.
      bindE (decrypt_loop pf (algorithm header) fileBytes masterKeyBytes (totalChunks header)
               0 headerSize []) (\<lambda>(offset, decryptedChunks).
      case header_originalHash header of
        Some expected \<Rightarrow>
          if expected \<noteq> [] then
            (let combined = concat decryptedChunks;
                 actual = calculateHash pf combined
             in if actual = expected
                then Inr \<lparr>blob = concat decryptedChunks, filename = originalFilename header,
                          verified = True, dec_originalHash = Some expected,
                          decryptedHash = Some actual\<rparr>
                else Inl VerifyFailed)
          else Inr \<lparr>blob = concat decryptedChunks, filename = originalFilename header,
                    verified = False, dec_originalHash = Some expected,
                    decryptedHash = None\<rparr>
      | None \<Rightarrow>
          Inr \<lparr>blob = concat decryptedChunks, filename = originalFilename header,
               verified = False, dec_originalHash = None, decryptedHash = None\<rparr>)))))"

subsection \<open>The byte layout of a header\<close>

text \<open>
  The 63 bytes that precede the file name, field after field, and the whole header. That
  \<^verbatim>\<open>serializeHeader\<close> produces them is proved below.
\<close>

definition header_fixed :: "'a FileHeader_scheme \<Rightarrow> bytes" where
  "header_fixed h =
     magic h @ be16 (version h) @ [of_nat (if algorithm h = AES_GCM then 0 else 1)] @ [of_nat 0]
     @ be32 (kdfMemory h) @ be32 (kdfIterations h) @ [of_nat (kdfParallelism h)]
     @ salt h @ be32 (chunkSize h) @ be32 (originalSize h) @ be32 (totalChunks h)
     @ be16 (length (utf8_encode (originalFilename h)))"

definition header_layout :: "'a FileHeader_scheme \<Rightarrow> bytes" where
  "header_layout h = header_fixed h @ utf8_encode (originalFilename h)"

subsection \<open>What the encryption loop appends\<close>

text \<open>
  The record of chunk \<open>j\<close>: the length of the encrypted chunk, the chunk nonce and the
  encrypted chunk. That the loop of \<^verbatim>\<open>encryptFile\<close> produces it is proved below.
\<close>

definition encrypted_record :: "platform \<Rightarrow> bytes \<Rightarrow> bytes \<Rightarrow> bytes list \<Rightarrow> nat \<Rightarrow> bytes" where
  "encrypted_record pf mk mn fileChunks j =
     (let nonce = take 8 mn @ be32 j;
          enc = encryptChunk pf (fileChunks ! j) (deriveChunkKeyBytes pf mk j) nonce
      in be32 (length enc) @ nonce @ enc)"

text \<open>
  What \<^verbatim>\<open>encryptFile\<close> computes on the way, named: the chunks that \<^verbatim>\<open>hashFileData\<close>
  cuts, the header that is serialized, the result of the key derivation and, for a master
  key \<open>mk\<close>, the chunk records.
\<close>

definition plain_chunks :: "File \<Rightarrow> bytes list" where
  "plain_chunks f =
     map (\<lambda>j. slice (content f) (j * CHUNK_SIZE) (min (j * CHUNK_SIZE + CHUNK_SIZE) (file_size f)))
       [0..<ceil_div (file_size f) CHUNK_SIZE]"

definition written_header :: "platform \<Rightarrow> byte stream \<Rightarrow> EncryptOptions \<Rightarrow> FileHeaderV2" where
  "written_header pf rng options =
     \<lparr>magic = MAGIC_BYTES, version = FORMAT_VERSION,
      algorithm = opt_algorithm options, kdf = Argon2id,
      kdfMemory = (case opt_kdfMemory options of None \<Rightarrow> 65536 | Some m \<Rightarrow> m),
      kdfIterations = (case opt_kdfIterations options of None \<Rightarrow> 3 | Some n \<Rightarrow> n),
      kdfParallelism = (case opt_kdfParallelism options of None \<Rightarrow> 4 | Some p \<Rightarrow> p),
      salt = stake 32 rng, chunkSize = CHUNK_SIZE,
      originalFilename = name (infile options),
      originalSize = file_size (infile options),
      totalChunks = length (plain_chunks (infile options)),
      originalHash = calculateHash pf (concat (plain_chunks (infile options)))\<rparr>"

definition master_key :: "platform \<Rightarrow> byte stream \<Rightarrow> EncryptOptions \<Rightarrow> error + bytes" where
  "master_key pf rng options =
     deriveKeyArgon2Bytes pf (password options) (stake 32 rng)
       (kdfMemory (written_header pf rng options))
       (kdfIterations (written_header pf rng options))
       (kdfParallelism (written_header pf rng options))"

definition written_records ::
  "platform \<Rightarrow> bytes \<Rightarrow> byte stream \<Rightarrow> EncryptOptions \<Rightarrow> bytes list" where
  "written_records pf mk rng options =
     map (encrypted_record pf mk (stake 12 (sdrop 32 rng))
            (plain_chunks (infile options)))
       [0..<length (plain_chunks (infile options))]"

text \<open>The AEAD of the platform appends a tag of 128 bits (\<^verbatim>\<open>tagLength: 128\<close>).\<close>

definition tag128 :: "platform \<Rightarrow> bool" where
  "tag128 pf = (\<forall>k iv d. length (aes_gcm_encrypt pf k iv d) = length d + 16)"

subsection \<open>Minimal decimal notation\<close>

text \<open>
  The notation of the spec for a chunk index, stated on its own: a non-empty sequence of
  decimal digits, most significant first, with no leading zero unless it is the single
  digit 0, whose value is the number. The function \<open>digits\<close> computes it.
\<close>

definition decimal_value :: "nat list \<Rightarrow> nat" where
  "decimal_value ds = foldl (\<lambda>acc d. 10 * acc + d) 0 ds"

definition minimal_decimal :: "nat list \<Rightarrow> nat \<Rightarrow> bool" where
  "minimal_decimal ds n =
     (ds \<noteq> [] \<and> list_all (\<lambda>d. d < 10) ds \<and> (hd ds \<noteq> 0 \<or> ds = [0]) \<and> decimal_value ds = n)"

function digits :: "nat \<Rightarrow> nat list" where
  "digits n = (if n < 10 then [n] else digits (n div 10) @ [n mod 10])"
  by pat_completeness auto
termination
  by (relation "measure (\<lambda>n. n)") auto

declare digits.simps [simp del]

subsection \<open>A sample platform\<close>

text \<open>
  A small instance of the platform on which the model runs on concrete inputs: a
  checksum stands for SHA-256; Argon2id rejects an empty password and zero iterations,
  as the library does, and gives a constant block otherwise; AES-GCM is the identity
  with a 16-byte tag; the decoder drops a leading byte order mark (EF BB BF), as
  \<^verbatim>\<open>new TextDecoder()\<close> does, and maps each further byte to one code unit (which is UTF-8
  decoding on ASCII).
\<close>

definition sample_platform :: platform where
  "sample_platform =
     \<lparr>sha256 = (\<lambda>d. replicate 31 0 @ [sum_list d]),
      argon2id = (\<lambda>pw s iterations memory parallelism.
        if pw = [] \<or> iterations = 0 then Inl KdfFailure
        else Inr (replicate 32 (of_nat (length pw)))),
      aes_gcm_encrypt = (\<lambda>k iv d. d @ replicate 16 (sum_list (k @ iv))),
      aes_gcm_decrypt = (\<lambda>k iv c.
        if 16 \<le> length c \<and> drop (length c - 16) c = replicate 16 (sum_list (k @ iv))
        then Some (take (length c - 16) c) else None),
      text_decode = (\<lambda>bs.
        map ucast (if take 3 bs = [239, 187, 191] then drop 3 bs else bs))\<rparr>"

subsection \<open>Sample inputs\<close>

text \<open>The file \<^verbatim>\<open>hello.txt\<close> with the five bytes \<^verbatim>\<open>hello\<close>, encrypted under \<^verbatim>\<open>pw\<close> with the defaults.\<close>

definition hello_file :: File where
  "hello_file = \<lparr>name = ascii ''hello.txt'', content = map of_char ''hello''\<rparr>"

definition hello_options :: EncryptOptions where
  "hello_options =
     \<lparr>infile = hello_file, password = ascii ''pw'', opt_algorithm = AES_GCM,
      opt_kdfMemory = None, opt_kdfIterations = None, opt_kdfParallelism = None\<rparr>"

text \<open>The header that \<^verbatim>\<open>encryptFile\<close> builds for it, with a salt of zeros.\<close>

definition hello_header :: FileHeader where
  "hello_header =
     \<lparr>magic = MAGIC_BYTES, version = FORMAT_VERSION, algorithm = AES_GCM, kdf = Argon2id,
      kdfMemory = 65536, kdfIterations = 3, kdfParallelism = 4, salt = replicate 32 0,
      chunkSize = CHUNK_SIZE, originalFilename = ascii ''hello.txt'', originalSize = 5,
      totalChunks = 1\<rparr>"

text \<open>The same header for a file whose name is U+FEFF followed by the letter \<^verbatim>\<open>a\<close>.\<close>

definition bom_header :: FileHeader where
  "bom_header = hello_header\<lparr>originalFilename := [65279, 97]\<rparr>"



text \<open>
  A container of two chunks under the sample platform: a valid record for the bytes
  1, 2, 3 and a record whose tag is off by one.
\<close>

definition two_chunk_header :: FileHeader where
  "two_chunk_header =
     \<lparr>magic = MAGIC_BYTES, version = FORMAT_VERSION, algorithm = AES_GCM, kdf = Argon2id,
      kdfMemory = 65536, kdfIterations = 3, kdfParallelism = 4, salt = replicate 32 0,
      chunkSize = CHUNK_SIZE, originalFilename = [], originalSize = 256, totalChunks = 2\<rparr>"

definition sample_master_key :: bytes where
  "sample_master_key = replicate 32 2"

definition good_record :: bytes where
  "good_record = encrypted_record sample_platform sample_master_key (replicate 12 0) [[1, 2, 3]] 0"

definition bad_record :: bytes where
  "bad_record =
     (let nonce = replicate 8 0 @ be32 1;
          key = deriveChunkKeyBytes sample_platform sample_master_key 1
      in be32 17 @ nonce @ [9] @ replicate 16 (sum_list (key @ nonce) + 1))"

definition tampered_file :: File where
  "tampered_file =
     \<lparr>name = ascii ''data.skita'',
      content = header_layout two_chunk_header @ good_record @ bad_record\<rparr>"

section \<open>Properties\<close>

subsection \<open>Buffers\<close>

lemma bindE_Inr [simp]: "bindE (Inr x) f = f x"
  by (simp add: bindE_def)

lemma bindE_Inl [simp]: "bindE (Inl e) f = Inl e"
  by (simp add: bindE_def)

lemma length_be16 [simp]: "length (be16 v) = 2"
  by (simp add: be16_def)

lemma length_be32 [simp]: "length (be32 v) = 4"
  by (simp add: be32_def)

lemma write_at_end:
  "length pre = off \<Longrightarrow> length src \<le> length rest \<Longrightarrow>
   write_at (pre @ rest) off src = Inr (pre @ src @ drop (length src) rest)"
  by (simp add: write_at_def)

lemma be32_digits:
  fixes v :: nat
  assumes "v < 4294967296"
  shows "v div 16777216 mod 256 * 16777216 + v div 65536 mod 256 * 65536
         + v div 256 mod 256 * 256 + v mod 256 = v"
proof -
  define a where "a = v div 256"
  define b where "b = a div 256"
  define c where "c = b div 256"
  have b: "v div 65536 = b" by (simp add: a_def b_def div_mult2_eq)
  have c: "v div 16777216 = c" by (simp add: a_def b_def c_def div_mult2_eq)
  have c256: "c < 256" using assms unfolding c[symmetric] by simp
  have 1: "v = 256 * a + v mod 256" by (simp add: a_def)
  have 2: "a = 256 * b + a mod 256" by (simp add: b_def)
  have 3: "b = 256 * c + b mod 256" by (simp add: c_def)
  have "c mod 256 * 16777216 + b mod 256 * 65536 + a mod 256 * 256 + v mod 256 = v"
    using 1 2 3 c256 by simp
  then show ?thesis by (simp add: a_def[symmetric] b c)
qed

lemma be_value_be32:
  assumes "v < 4294967296"
  shows "be_value (be32 v) = v"
proof -
  have top: "v div 16777216 mod 256 = v div 16777216"
    using assms by simp
  show ?thesis
    using be32_digits [OF assms] top
    by (simp add: be_value_def be32_def unat_of_nat algebra_simps)
qed

lemma write_at_zeros:
  "length pre = off \<Longrightarrow> length src \<le> k \<Longrightarrow>
   write_at (pre @ replicate k 0) off src = Inr (pre @ src @ replicate (k - length src) 0)"
  by (simp add: write_at_def)

lemma be16_value:
  fixes v :: nat
  shows "v div 256 mod 256 * 256 + v mod 256 = v mod 65536"
  using mod_mult2_eq [of v 256 256] by simp

lemma be32_value:
  fixes v :: nat
  shows "v div 16777216 mod 256 * 16777216 + v div 65536 mod 256 * 65536
         + v div 256 mod 256 * 256 + v mod 256 = v mod 4294967296"
proof -
  define a where "a = v div 256"
  define b where "b = a div 256"
  define c where "c = b div 256"
  have b: "v div 65536 = b" by (simp add: a_def b_def div_mult2_eq)
  have c: "v div 16777216 = c" by (simp add: a_def b_def c_def div_mult2_eq)
  have 1: "v mod 4294967296 = 256 * (a mod 16777216) + v mod 256"
    using mod_mult2_eq [of v 256 16777216] by (simp add: a_def)
  have 2: "a mod 16777216 = 256 * (b mod 65536) + a mod 256"
    using mod_mult2_eq [of a 256 65536] by (simp add: b_def)
  have 3: "b mod 65536 = 256 * (c mod 256) + b mod 256"
    using mod_mult2_eq [of b 256 256] by (simp add: c_def)
  have "c mod 256 * 16777216 + b mod 256 * 65536 + a mod 256 * 256 + v mod 256
        = v mod 4294967296"
    using 1 2 3 by simp
  then show ?thesis by (simp add: a_def[symmetric] b c)
qed

lemma getUint8_at:
  "length pre = off \<Longrightarrow> getUint8 (pre @ [b] @ post) off = Inr (unat b)"
  by (simp add: getUint8_def nth_append)

lemma getUint16_at:
  "length pre = off \<Longrightarrow> getUint16 (pre @ be16 v @ post) off = Inr (v mod 65536)"
  using be16_value [of v]
  by (simp add: getUint16_def nth_append be16_def unat_of_nat)

lemma getUint32_at:
  "length pre = off \<Longrightarrow> getUint32 (pre @ be32 v @ post) off = Inr (v mod 4294967296)"
  using be32_value [of v]
  by (simp add: getUint32_def nth_append be32_def unat_of_nat)

lemma slice_at:
  "length pre = off \<Longrightarrow> length x = k \<Longrightarrow> slice (pre @ x @ post) off (off + k) = x"
  by (simp add: slice_def)

lemma getUint16_straddle:
  "length pre = off \<Longrightarrow>
   getUint16 (pre @ be32 a @ be32 b @ post) (off + 3)
     = Inr (a mod 256 * 256 + b div 16777216 mod 256)"
  by (simp add: getUint16_def nth_append be32_def unat_of_nat)

subsection \<open>ASCII strings\<close>

lemma code_points_ascii:
  "list_all (\<lambda>u. unat u < 128) s \<Longrightarrow> code_points s = map unat s"
  by (induction s rule: code_points.induct)
    (auto simp: is_high_surrogate_def is_low_surrogate_def)

lemma utf8_encode_ascii:
  assumes "list_all (\<lambda>u. unat u < 128) s"
  shows "utf8_encode s = map ucast s"
proof -
  have "concat (map utf8_bytes (map unat s)) = map ucast s"
    using assms by (induction s) (simp_all add: utf8_bytes_def)
  then show ?thesis
    using assms by (simp add: utf8_encode_def code_points_ascii)
qed

subsection \<open>Serialized headers\<close>

lemma serializeHeader_layout:
  assumes "length (magic h) = 4" and "length (salt h) = 32"
  shows "serializeHeader h = Inr (header_layout h)"
proof -
  let ?fn = "utf8_encode (originalFilename h)"
  let ?F = "length ?fn"
  let ?a = "(if algorithm h = AES_GCM then 0 else 1) :: nat"
  let ?p1 = "magic h"
  let ?p2 = "?p1 @ be16 (version h)"
  let ?p3 = "?p2 @ [of_nat ?a]"
  let ?p4 = "?p3 @ [of_nat 0]"
  let ?p5 = "?p4 @ be32 (kdfMemory h)"
  let ?p6 = "?p5 @ be32 (kdfIterations h)"
  let ?p7 = "?p6 @ [of_nat (kdfParallelism h)]"
  let ?p8 = "?p7 @ salt h"
  let ?p9 = "?p8 @ be32 (chunkSize h)"
  let ?p10 = "?p9 @ be32 (originalSize h)"
  let ?p11 = "?p10 @ be32 (totalChunks h)"
  let ?p12 = "?p11 @ be16 ?F"
  have s1: "write_at (replicate (63 + ?F) 0) 0 (magic h) = Inr (?p1 @ replicate (59 + ?F) 0)"
    using write_at_zeros [of "[]" 0 "magic h" "63 + ?F"] assms by simp
  have s2: "setUint16 (?p1 @ replicate (59 + ?F) 0) 4 (version h) = Inr (?p2 @ replicate (57 + ?F) 0)"
    using write_at_zeros [of ?p1 4 "be16 (version h)" "59 + ?F"] assms by (simp add: setUint16_def)
  have s3: "setUint8 (?p2 @ replicate (57 + ?F) 0) 6 ?a = Inr (?p3 @ replicate (56 + ?F) 0)"
    using write_at_zeros [of ?p2 6 "[of_nat ?a]" "57 + ?F"] assms by (simp add: setUint8_def)
  have s4: "setUint8 (?p3 @ replicate (56 + ?F) 0) 7 0 = Inr (?p4 @ replicate (55 + ?F) 0)"
    using write_at_zeros [of ?p3 7 "[of_nat 0]" "56 + ?F"] assms by (simp add: setUint8_def)
  have s5: "setUint32 (?p4 @ replicate (55 + ?F) 0) 8 (kdfMemory h) = Inr (?p5 @ replicate (51 + ?F) 0)"
    using write_at_zeros [of ?p4 8 "be32 (kdfMemory h)" "55 + ?F"] assms by (simp add: setUint32_def)
  have s6: "setUint32 (?p5 @ replicate (51 + ?F) 0) 12 (kdfIterations h) = Inr (?p6 @ replicate (47 + ?F) 0)"
    using write_at_zeros [of ?p5 12 "be32 (kdfIterations h)" "51 + ?F"] assms by (simp add: setUint32_def)
  have s7: "setUint8 (?p6 @ replicate (47 + ?F) 0) 16 (kdfParallelism h) = Inr (?p7 @ replicate (46 + ?F) 0)"
    using write_at_zeros [of ?p6 16 "[of_nat (kdfParallelism h)]" "47 + ?F"] assms by (simp add: setUint8_def)
  have s8: "write_at (?p7 @ replicate (46 + ?F) 0) 17 (salt h) = Inr (?p8 @ replicate (14 + ?F) 0)"
    using write_at_zeros [of ?p7 17 "salt h" "46 + ?F"] assms by simp
  have s9: "setUint32 (?p8 @ replicate (14 + ?F) 0) 49 (chunkSize h) = Inr (?p9 @ replicate (10 + ?F) 0)"
    using write_at_zeros [of ?p8 49 "be32 (chunkSize h)" "14 + ?F"] assms by (simp add: setUint32_def)
  have s10: "setUint32 (?p9 @ replicate (10 + ?F) 0) 53 (originalSize h) = Inr (?p10 @ replicate (6 + ?F) 0)"
    using write_at_zeros [of ?p9 53 "be32 (originalSize h)" "10 + ?F"] assms by (simp add: setUint32_def)
  have s11: "setUint32 (?p10 @ replicate (6 + ?F) 0) 57 (totalChunks h) = Inr (?p11 @ replicate (2 + ?F) 0)"
    using write_at_zeros [of ?p10 57 "be32 (totalChunks h)" "6 + ?F"] assms by (simp add: setUint32_def)
  have s12: "setUint16 (?p11 @ replicate (2 + ?F) 0) 61 ?F = Inr (?p12 @ replicate ?F 0)"
    using write_at_zeros [of ?p11 61 "be16 ?F" "2 + ?F"] assms by (simp add: setUint16_def)
  have s13: "write_at (?p12 @ replicate ?F 0) 63 ?fn = Inr (?p12 @ ?fn)"
    using write_at_zeros [of ?p12 63 ?fn ?F] assms by simp
  have size: "4 + 2 + 1 + 1 + 4 + 4 + 1 + 32 + 4 + 4 + 4 + 2 + ?F = 63 + ?F"
    by simp
  show ?thesis
    unfolding serializeHeader_def Let_def size
    by (simp only: s1 s2 [unfolded append_assoc] s3 [unfolded append_assoc]
        s4 [unfolded append_assoc] s5 [unfolded append_assoc] s6 [unfolded append_assoc]
        s7 [unfolded append_assoc] s8 [unfolded append_assoc] s9 [unfolded append_assoc]
        s10 [unfolded append_assoc] s11 [unfolded append_assoc] s12 [unfolded append_assoc]
        s13 [unfolded append_assoc] bindE_Inr header_layout_def header_fixed_def
        append_assoc) 
qed

lemma length_header_fixed:
  "length (magic h) = 4 \<Longrightarrow> length (salt h) = 32 \<Longrightarrow> length (header_fixed h) = 63"
  by (simp add: header_fixed_def)

lemma header_fixed_reads:
  assumes "length (magic h) = 4" and "length (salt h) = 32"
  shows "slice (header_fixed h @ tail) 0 4 = magic h"
    and "getUint16 (header_fixed h @ tail) 4 = Inr (version h mod 65536)"
    and "getUint8 (header_fixed h @ tail) 6 = Inr (unat (of_nat (if algorithm h = AES_GCM then 0 else 1) :: byte))"
    and "getUint8 (header_fixed h @ tail) 7 = Inr (unat (of_nat 0 :: byte))"
    and "getUint32 (header_fixed h @ tail) 8 = Inr (kdfMemory h mod 4294967296)"
    and "getUint32 (header_fixed h @ tail) 12 = Inr (kdfIterations h mod 4294967296)"
    and "getUint8 (header_fixed h @ tail) 16 = Inr (unat (of_nat (kdfParallelism h) :: byte))"
    and "slice (header_fixed h @ tail) 17 49 = salt h"
    and "getUint32 (header_fixed h @ tail) 49 = Inr (chunkSize h mod 4294967296)"
    and "getUint32 (header_fixed h @ tail) 53 = Inr (originalSize h mod 4294967296)"
    and "getUint32 (header_fixed h @ tail) 57 = Inr (totalChunks h mod 4294967296)"
    and "getUint16 (header_fixed h @ tail) 61 = Inr (length (utf8_encode (originalFilename h)) mod 65536)"
    and "slice (header_fixed h @ tail) 63 (63 + k) = take k tail"
proof -
  show "slice (header_fixed h @ tail) 0 4 = magic h"
    using assms by (simp add: header_fixed_def slice_def)
  have "header_fixed h @ tail = (magic h)
          @ be16 (version h) @ ([of_nat (if algorithm h = AES_GCM then 0 else 1)] @ [of_nat 0] @ be32 (kdfMemory h) @ be32 (kdfIterations h) @ [of_nat (kdfParallelism h)] @ salt h @ be32 (chunkSize h) @ be32 (originalSize h) @ be32 (totalChunks h) @ be16 (length (utf8_encode (originalFilename h))) @ tail)"
    by (simp add: header_fixed_def)
  moreover have "length (magic h) = 4"
    using assms by simp
  ultimately show "getUint16 (header_fixed h @ tail) 4 = Inr (version h mod 65536)"
    by (simp only: getUint16_at)
  have "header_fixed h @ tail = (magic h @ be16 (version h))
          @ [of_nat (if algorithm h = AES_GCM then 0 else 1)] @ ([of_nat 0] @ be32 (kdfMemory h) @ be32 (kdfIterations h) @ [of_nat (kdfParallelism h)] @ salt h @ be32 (chunkSize h) @ be32 (originalSize h) @ be32 (totalChunks h) @ be16 (length (utf8_encode (originalFilename h))) @ tail)"
    by (simp add: header_fixed_def)
  moreover have "length (magic h @ be16 (version h)) = 6"
    using assms by simp
  ultimately show "getUint8 (header_fixed h @ tail) 6 = Inr (unat (of_nat (if algorithm h = AES_GCM then 0 else 1) :: byte))"
    by (simp only: getUint8_at)
  have "header_fixed h @ tail = (magic h @ be16 (version h) @ [of_nat (if algorithm h = AES_GCM then 0 else 1)])
          @ [of_nat 0] @ (be32 (kdfMemory h) @ be32 (kdfIterations h) @ [of_nat (kdfParallelism h)] @ salt h @ be32 (chunkSize h) @ be32 (originalSize h) @ be32 (totalChunks h) @ be16 (length (utf8_encode (originalFilename h))) @ tail)"
    by (simp add: header_fixed_def)
  moreover have "length (magic h @ be16 (version h) @ [of_nat (if algorithm h = AES_GCM then 0 else 1)]) = 7"
    using assms by simp
  ultimately show "getUint8 (header_fixed h @ tail) 7 = Inr (unat (of_nat 0 :: byte))"
    by (simp only: getUint8_at)
  have "header_fixed h @ tail = (magic h @ be16 (version h) @ [of_nat (if algorithm h = AES_GCM then 0 else 1)] @ [of_nat 0])
          @ be32 (kdfMemory h) @ (be32 (kdfIterations h) @ [of_nat (kdfParallelism h)] @ salt h @ be32 (chunkSize h) @ be32 (originalSize h) @ be32 (totalChunks h) @ be16 (length (utf8_encode (originalFilename h))) @ tail)"
    by (simp add: header_fixed_def)
  moreover have "length (magic h @ be16 (version h) @ [of_nat (if algorithm h = AES_GCM then 0 else 1)] @ [of_nat 0]) = 8"
    using assms by simp
  ultimately show "getUint32 (header_fixed h @ tail) 8 = Inr (kdfMemory h mod 4294967296)"
    by (simp only: getUint32_at)
  have "header_fixed h @ tail = (magic h @ be16 (version h) @ [of_nat (if algorithm h = AES_GCM then 0 else 1)] @ [of_nat 0] @ be32 (kdfMemory h))
          @ be32 (kdfIterations h) @ ([of_nat (kdfParallelism h)] @ salt h @ be32 (chunkSize h) @ be32 (originalSize h) @ be32 (totalChunks h) @ be16 (length (utf8_encode (originalFilename h))) @ tail)"
    by (simp add: header_fixed_def)
  moreover have "length (magic h @ be16 (version h) @ [of_nat (if algorithm h = AES_GCM then 0 else 1)] @ [of_nat 0] @ be32 (kdfMemory h)) = 12"
    using assms by simp
  ultimately show "getUint32 (header_fixed h @ tail) 12 = Inr (kdfIterations h mod 4294967296)"
    by (simp only: getUint32_at)
  have "header_fixed h @ tail = (magic h @ be16 (version h) @ [of_nat (if algorithm h = AES_GCM then 0 else 1)] @ [of_nat 0] @ be32 (kdfMemory h) @ be32 (kdfIterations h))
          @ [of_nat (kdfParallelism h)] @ (salt h @ be32 (chunkSize h) @ be32 (originalSize h) @ be32 (totalChunks h) @ be16 (length (utf8_encode (originalFilename h))) @ tail)"
    by (simp add: header_fixed_def)
  moreover have "length (magic h @ be16 (version h) @ [of_nat (if algorithm h = AES_GCM then 0 else 1)] @ [of_nat 0] @ be32 (kdfMemory h) @ be32 (kdfIterations h)) = 16"
    using assms by simp
  ultimately show "getUint8 (header_fixed h @ tail) 16 = Inr (unat (of_nat (kdfParallelism h) :: byte))"
    by (simp only: getUint8_at)
  show "slice (header_fixed h @ tail) 17 49 = salt h"
    using assms by (simp add: header_fixed_def slice_def)
  have "header_fixed h @ tail = (magic h @ be16 (version h) @ [of_nat (if algorithm h = AES_GCM then 0 else 1)] @ [of_nat 0] @ be32 (kdfMemory h) @ be32 (kdfIterations h) @ [of_nat (kdfParallelism h)] @ salt h)
          @ be32 (chunkSize h) @ (be32 (originalSize h) @ be32 (totalChunks h) @ be16 (length (utf8_encode (originalFilename h))) @ tail)"
    by (simp add: header_fixed_def)
  moreover have "length (magic h @ be16 (version h) @ [of_nat (if algorithm h = AES_GCM then 0 else 1)] @ [of_nat 0] @ be32 (kdfMemory h) @ be32 (kdfIterations h) @ [of_nat (kdfParallelism h)] @ salt h) = 49"
    using assms by simp
  ultimately show "getUint32 (header_fixed h @ tail) 49 = Inr (chunkSize h mod 4294967296)"
    by (simp only: getUint32_at)
  have "header_fixed h @ tail = (magic h @ be16 (version h) @ [of_nat (if algorithm h = AES_GCM then 0 else 1)] @ [of_nat 0] @ be32 (kdfMemory h) @ be32 (kdfIterations h) @ [of_nat (kdfParallelism h)] @ salt h @ be32 (chunkSize h))
          @ be32 (originalSize h) @ (be32 (totalChunks h) @ be16 (length (utf8_encode (originalFilename h))) @ tail)"
    by (simp add: header_fixed_def)
  moreover have "length (magic h @ be16 (version h) @ [of_nat (if algorithm h = AES_GCM then 0 else 1)] @ [of_nat 0] @ be32 (kdfMemory h) @ be32 (kdfIterations h) @ [of_nat (kdfParallelism h)] @ salt h @ be32 (chunkSize h)) = 53"
    using assms by simp
  ultimately show "getUint32 (header_fixed h @ tail) 53 = Inr (originalSize h mod 4294967296)"
    by (simp only: getUint32_at)
  have "header_fixed h @ tail = (magic h @ be16 (version h) @ [of_nat (if algorithm h = AES_GCM then 0 else 1)] @ [of_nat 0] @ be32 (kdfMemory h) @ be32 (kdfIterations h) @ [of_nat (kdfParallelism h)] @ salt h @ be32 (chunkSize h) @ be32 (originalSize h))
          @ be32 (totalChunks h) @ (be16 (length (utf8_encode (originalFilename h))) @ tail)"
    by (simp add: header_fixed_def)
  moreover have "length (magic h @ be16 (version h) @ [of_nat (if algorithm h = AES_GCM then 0 else 1)] @ [of_nat 0] @ be32 (kdfMemory h) @ be32 (kdfIterations h) @ [of_nat (kdfParallelism h)] @ salt h @ be32 (chunkSize h) @ be32 (originalSize h)) = 57"
    using assms by simp
  ultimately show "getUint32 (header_fixed h @ tail) 57 = Inr (totalChunks h mod 4294967296)"
    by (simp only: getUint32_at)
  have "header_fixed h @ tail = (magic h @ be16 (version h) @ [of_nat (if algorithm h = AES_GCM then 0 else 1)] @ [of_nat 0] @ be32 (kdfMemory h) @ be32 (kdfIterations h) @ [of_nat (kdfParallelism h)] @ salt h @ be32 (chunkSize h) @ be32 (originalSize h) @ be32 (totalChunks h))
          @ be16 (length (utf8_encode (originalFilename h))) @ (tail)"
    by (simp add: header_fixed_def)
  moreover have "length (magic h @ be16 (version h) @ [of_nat (if algorithm h = AES_GCM then 0 else 1)] @ [of_nat 0] @ be32 (kdfMemory h) @ be32 (kdfIterations h) @ [of_nat (kdfParallelism h)] @ salt h @ be32 (chunkSize h) @ be32 (originalSize h) @ be32 (totalChunks h)) = 61"
    using assms by simp
  ultimately show "getUint16 (header_fixed h @ tail) 61 = Inr (length (utf8_encode (originalFilename h)) mod 65536)"
    by (simp only: getUint16_at)
  show "slice (header_fixed h @ tail) 63 (63 + k) = take k tail"
    using assms by (simp add: slice_def header_fixed_def)
qed

lemma magic_ok_MAGIC: "magic_ok MAGIC_BYTES"
  by (simp add: magic_ok_def MAGIC_BYTES_def)

lemma deserializeHeader_fixed:
  assumes "magic h = MAGIC_BYTES" and "length (salt h) = 32"
  shows "deserializeHeader pf (header_fixed h @ tail) =
    Inr \<lparr>magic = magic h, version = version h mod 65536, algorithm = algorithm h,
         kdf = Argon2id, kdfMemory = kdfMemory h mod 4294967296,
         kdfIterations = kdfIterations h mod 4294967296,
         kdfParallelism = kdfParallelism h mod 256, salt = salt h,
         chunkSize = chunkSize h mod 4294967296,
         originalFilename = text_decode pf
           (take (length (utf8_encode (originalFilename h)) mod 65536) tail),
         originalSize = originalSize h mod 4294967296,
         totalChunks = totalChunks h mod 4294967296\<rparr>"
proof -
  have len: "length (magic h) = 4"
    using assms(1) by (simp add: MAGIC_BYTES_def)
  note reads = header_fixed_reads [OF len assms(2), of tail]
  show ?thesis
    unfolding deserializeHeader_def Let_def
    using assms(1)
    by (cases "algorithm h") (simp_all add: reads magic_ok_MAGIC unat_of_nat)
qed

lemma getHeaderSize_fixed:
  assumes "length (magic h) = 4" and "length (salt h) = 32"
  shows "getHeaderSize (header_fixed h @ tail)
           = Inr (63 + (originalSize h mod 256 * 256 + totalChunks h div 16777216 mod 256))"
proof -
  let ?pre = "magic h @ be16 (version h) @ [of_nat (if algorithm h = AES_GCM then 0 else 1)]
     @ [of_nat 0] @ be32 (kdfMemory h) @ be32 (kdfIterations h) @ [of_nat (kdfParallelism h)]
     @ salt h @ be32 (chunkSize h)"
  have "header_fixed h @ tail = ?pre @ be32 (originalSize h) @ be32 (totalChunks h)
          @ (be16 (length (utf8_encode (originalFilename h))) @ tail)"
    by (simp add: header_fixed_def)
  moreover have "length ?pre = 53" using assms by simp
  ultimately have "getUint16 (header_fixed h @ tail) (53 + 3)
      = Inr (originalSize h mod 256 * 256 + totalChunks h div 16777216 mod 256)"
    by (simp only: getUint16_straddle)
  then show ?thesis by (simp add: getHeaderSize_def)
qed

subsection \<open>Chunk nonce\<close>

lemma deriveChunkNonce_bytes:
  assumes "8 \<le> length masterNonce"
  shows "deriveChunkNonce masterNonce i = Inr (take 8 masterNonce @ be32 i)"
proof -
  have "write_at (replicate 12 0) 0 (slice masterNonce 0 8)
        = Inr (take 8 masterNonce @ replicate 4 0)"
    using assms by (simp add: write_at_def slice_def min_def)
  moreover have "setUint32 (take 8 masterNonce @ replicate 4 0) 8 i
        = Inr (take 8 masterNonce @ be32 i)"
    unfolding setUint32_def using assms by (subst write_at_end) simp_all
  ultimately show ?thesis
    by (simp add: deriveChunkNonce_def)
qed

text \<open>
  Claim C8. For every 12-byte master nonce and every chunk index below \<open>2^32\<close>,
  \<^verbatim>\<open>deriveChunkNonce\<close> returns, without raising, the 12 bytes made of the first 8 bytes
  of the master nonce followed by the 4 bytes whose big-endian value is the index.
\<close>

theorem deriveChunkNonce_spec:
  assumes "length masterNonce = 12" and "i < 2 ^ 32"
  shows "\<exists>w. deriveChunkNonce masterNonce i = Inr (take 8 masterNonce @ w)
           \<and> length w = 4 \<and> be_value w = i
           \<and> length (take 8 masterNonce @ w) = 12"
proof (intro exI conjI)
  show "deriveChunkNonce masterNonce i = Inr (take 8 masterNonce @ be32 i)"
    using assms(1) by (simp add: deriveChunkNonce_bytes)
  show "length (be32 i) = 4" by simp
  show "be_value (be32 i) = i" using assms(2) by (simp add: be_value_be32)
  show "length (take 8 masterNonce @ be32 i) = 12" using assms(1) by simp
qed

theorem deriveChunkNonce_spec_witness:
  "deriveChunkNonce [1, 2, 3, 4, 5, 6, 7, 8, 9, 10, 11, 12] 258
     = Inr [1, 2, 3, 4, 5, 6, 7, 8, 0, 0, 1, 2]"
proof -
  have "\<exists>w. deriveChunkNonce [1, 2, 3, 4, 5, 6, 7, 8, 9, 10, 11, 12] 258
              = Inr (take 8 [1, 2, 3, 4, 5, 6, 7, 8, 9, 10, 11, 12] @ w)
            \<and> length w = 4 \<and> be_value w = 258
            \<and> length (take 8 [1, 2, 3, 4, 5, 6, 7, 8, 9, 10, 11, 12 :: byte] @ w) = 12"
    by (rule deriveChunkNonce_spec) simp_all
  then show ?thesis
    by (simp add: deriveChunkNonce_def write_at_def slice_def setUint32_def be32_def)
qed

subsection \<open>Encryption\<close>

lemma tag128_sample: "tag128 sample_platform"
  by (simp add: tag128_def sample_platform_def)

lemma chunk_record_bytes:
  assumes "length nonce = 12"
  shows "chunk_record nonce enc = Inr (be32 (length enc) @ nonce @ enc)"
proof -
  let ?L = "length enc"
  have 1: "setUint32 (replicate (16 + ?L) 0) 0 ?L = Inr (be32 ?L @ replicate (12 + ?L) 0)"
    using write_at_zeros [of "[]" 0 "be32 ?L" "16 + ?L"] by (simp add: setUint32_def)
  have 2: "write_at (be32 ?L @ replicate (12 + ?L) 0) 4 nonce
             = Inr (be32 ?L @ nonce @ replicate ?L 0)"
    using write_at_zeros [of "be32 ?L" 4 nonce "12 + ?L"] assms by simp
  have 3: "write_at (be32 ?L @ nonce @ replicate ?L 0) 16 enc = Inr (be32 ?L @ nonce @ enc)"
    using write_at_zeros [of "be32 ?L @ nonce" 16 enc ?L] assms by simp
  show ?thesis
    by (simp add: chunk_record_def 1 2 3)
qed

lemma hashFileData_loop_eq:
  "hashFileData_loop f n i chunks =
     chunks @ map (\<lambda>j. slice (content f) (j * CHUNK_SIZE)
                          (min (j * CHUNK_SIZE + CHUNK_SIZE) (file_size f))) [i..<n]"
proof (induction f n i chunks rule: hashFileData_loop.induct)
  case (1 f n i chunks)
  show ?case
  proof (cases "i < n")
    case True
    then show ?thesis
      using "1.IH" [OF True refl refl refl]
      by (subst hashFileData_loop.simps) (simp add: upt_conv_Cons Let_def)
  next
    case False
    then show ?thesis
      by (subst hashFileData_loop.simps) simp
  qed
qed

lemma encrypt_loop_eq:
  "8 \<le> length mn \<Longrightarrow>
   encrypt_loop pf algo mk mn fileChunks n i chunks =
     Inr (chunks @ map (encrypted_record pf mk mn fileChunks) [i..<n])"
proof (induction pf algo mk mn fileChunks n i chunks rule: encrypt_loop.induct)
  case (1 pf algo mk mn fileChunks n i chunks)
  show ?case
  proof (cases "i < n")
    case True
    have nonce: "deriveChunkNonce mn i = Inr (take 8 mn @ be32 i)"
      using "1.prems" by (rule deriveChunkNonce_bytes)
    have len: "length (take 8 mn @ be32 i) = 12"
      using "1.prems" by simp
    note rec = chunk_record_bytes [OF len]
    show ?thesis
      using True "1.IH" [OF True refl refl nonce refl rec "1.prems"]
      by (subst encrypt_loop.simps)
        (simp add: nonce rec upt_conv_Cons Let_def encrypted_record_def)
  next
    case False
    then show ?thesis
      by (subst encrypt_loop.simps) simp
  qed
qed

lemma written_header_lengths:
  "length (magic (written_header pf rng options)) = 4"
  "length (salt (written_header pf rng options)) = 32"
  "magic (written_header pf rng options) = MAGIC_BYTES"
  by (simp_all add: written_header_def MAGIC_BYTES_def)

lemma master_key_eq:
  "master_key pf rng options =
     deriveKeyArgon2Bytes pf (password options) (fst (generateSalt rng))
       (case opt_kdfMemory options of None \<Rightarrow> 65536 | Some m \<Rightarrow> m)
       (case opt_kdfIterations options of None \<Rightarrow> 3 | Some n \<Rightarrow> n)
       (case opt_kdfParallelism options of None \<Rightarrow> 4 | Some p \<Rightarrow> p)"
  by (simp add: master_key_def written_header_def generateSalt_def generateRandomBytes_def)

lemma encryptFile_chunks_unfold:
  "encryptFile_chunks pf rng options =
     bindE (master_key pf rng options) (\<lambda>mk.
       Inr (originalHash (written_header pf rng options),
            header_layout (written_header pf rng options) # written_records pf mk rng options))"
proof -
  have ser: "serializeHeader (written_header pf rng options)
               = Inr (header_layout (written_header pf rng options))"
    by (rule serializeHeader_layout) (rule written_header_lengths)+
  have loop: "\<And>algo mk cs n hb. encrypt_loop pf algo mk (stake 12 (sdrop 32 rng)) cs n 0 [hb]
      = Inr (hb # map (encrypted_record pf mk (stake 12 (sdrop 32 rng)) cs) [0..<n])"
    by (subst encrypt_loop_eq) simp_all
  have chunks: "hashFileData_loop (infile options)
      (ceil_div (file_size (infile options)) CHUNK_SIZE) 0 [] = plain_chunks (infile options)"
    by (simp add: hashFileData_loop_eq plain_chunks_def)
  show ?thesis
    unfolding encryptFile_chunks_def hashFileData_def generateSalt_def generateNonce_def
      generateRandomBytes_def Let_def chunks
    using ser
    by (simp add: loop written_header_def written_records_def master_key_def)
qed

lemma encryptFile_chunks_eq:
  assumes "master_key pf rng options = Inr mk"
  shows "encryptFile_chunks pf rng options =
     Inr (originalHash (written_header pf rng options),
          header_layout (written_header pf rng options) # written_records pf mk rng options)"
  by (simp add: encryptFile_chunks_unfold assms)

lemma encryptFile_eq:
  assumes "master_key pf rng options = Inr mk"
  shows "encryptFile pf rng options =
     Inr \<lparr>enc_blob = header_layout (written_header pf rng options)
                       @ concat (written_records pf mk rng options),
          enc_filename = name (infile options) @ ascii ''.skita'',
          enc_originalHash = originalHash (written_header pf rng options)\<rparr>"
  by (simp add: encryptFile_def encryptFile_chunks_eq [OF assms])

lemma encryptFile_kdf_fails:
  assumes "master_key pf rng options = Inl e"
  shows "encryptFile pf rng options = Inl e"
  by (simp add: encryptFile_def encryptFile_chunks_unfold assms)

subsection \<open>Chunk count and chunk lengths\<close>

lemma ceil_div_bounds:
  assumes "0 < c" and "0 < a"
  shows "a \<le> ceil_div a c * c" and "(ceil_div a c - 1) * c < a" and "0 < ceil_div a c"
proof -
  define q where "q = (a + c - 1) div c"
  define r where "r = (a + c - 1) mod c"
  have eq: "q * c + r = a + c - 1"
    by (simp add: q_def r_def)
  have r: "r < c" using assms(1) by (simp add: r_def)
  have q1: "0 < q"
  proof (rule ccontr)
    assume "\<not> 0 < q"
    then have "q = 0" by simp
    with eq r assms show False by simp
  qed
  then obtain q' where q': "q = Suc q'" by (cases q) auto
  show "a \<le> ceil_div a c * c"
    using eq r assms unfolding ceil_div_def q_def [symmetric] by linarith
  show "(ceil_div a c - 1) * c < a"
    using eq r assms unfolding ceil_div_def q_def [symmetric] q' by simp
  show "0 < ceil_div a c"
    using q1 by (simp add: ceil_div_def q_def)
qed

lemma ceil_div_ceiling:
  assumes "0 < c"
  shows "int (ceil_div a c) = \<lceil>real a / real c\<rceil>"
proof (cases "a = 0")
  case True
  then show ?thesis using assms by (simp add: ceil_div_def)
next
  case False
  then have a: "0 < a" by simp
  note b = ceil_div_bounds [OF assms a]
  have "real a \<le> real (ceil_div a c) * real c"
    using b(1) by (metis of_nat_le_iff of_nat_mult)
  then have up: "real a / real c \<le> real (ceil_div a c)"
    using assms by (simp add: field_simps)
  have "real ((ceil_div a c - 1) * c) < real a"
    using b(2) by (simp only: of_nat_less_iff)
  then have "(real (ceil_div a c) - 1) * real c < real a"
    using b(3) by (simp add: of_nat_diff)
  then have lo: "real (ceil_div a c) - 1 < real a / real c"
    using assms by (simp add: field_simps)
  show ?thesis
    using up lo by (intro ceiling_unique [symmetric]) simp_all
qed

lemma length_plain_chunks: "length (plain_chunks f) = ceil_div (file_size f) CHUNK_SIZE"
  by (simp add: plain_chunks_def)

lemma CHUNK_SIZE_pos: "0 < CHUNK_SIZE"
  by (simp add: CHUNK_SIZE_def)

lemma length_plain_chunk:
  assumes "j < length (plain_chunks f)"
  shows "length (plain_chunks f ! j) =
           (if j + 1 < length (plain_chunks f) then CHUNK_SIZE
            else file_size f - (length (plain_chunks f) - 1) * CHUNK_SIZE)"
proof -
  let ?n = "ceil_div (file_size f) CHUNK_SIZE"
  have n: "length (plain_chunks f) = ?n" by (rule length_plain_chunks)
  have pos: "0 < file_size f"
    using assms by (cases "file_size f = 0") (simp_all add: n ceil_div_def CHUNK_SIZE_def)
  note b = ceil_div_bounds [OF CHUNK_SIZE_pos pos]
  have len: "length (plain_chunks f ! j)
               = min (j * CHUNK_SIZE + CHUNK_SIZE) (file_size f) - j * CHUNK_SIZE"
    using assms by (simp add: plain_chunks_def slice_def file_size_def)
  show ?thesis
  proof (cases "j + 1 < ?n")
    case True
    then have "(j + 1) * CHUNK_SIZE \<le> (?n - 1) * CHUNK_SIZE"
      by (intro mult_le_mono1) simp
    with b(2) have "j * CHUNK_SIZE + CHUNK_SIZE < file_size f" by simp
    with True show ?thesis by (simp add: len n)
  next
    case False
    with assms have j: "?n - Suc 0 = j" by (simp add: n)
    have "file_size f \<le> j * CHUNK_SIZE + CHUNK_SIZE"
      using b(1) b(3) unfolding j [symmetric] by (cases ?n) simp_all
    then have "length (plain_chunks f ! j) = file_size f - j * CHUNK_SIZE"
      by (simp add: len)
    with False show ?thesis by (simp add: n j)
  qed
qed

lemma length_plain_chunk_le:
  "j < length (plain_chunks f) \<Longrightarrow> length (plain_chunks f ! j) \<le> CHUNK_SIZE"
  by (simp add: plain_chunks_def slice_def)

lemma concat_plain_chunks_aux:
  "concat (map (\<lambda>j. slice xs (j * c) (min (j * c + c) (length xs))) [0..<n])
     = take (n * c) xs"
proof (induction n)
  case 0
  then show ?case by simp
next
  case (Suc n)
  have "take (n * c) xs @ slice xs (n * c) (min (n * c + c) (length xs)) = take (n * c + c) xs"
    by (simp add: slice_def take_add min_def)
  with Suc show ?case by (simp add: add.commute)
qed

lemma concat_plain_chunks: "concat (plain_chunks f) = content f"
proof (cases "file_size f = 0")
  case True
  then show ?thesis by (simp add: plain_chunks_def file_size_def ceil_div_def slice_def)
next
  case False
  then have "file_size f \<le> ceil_div (file_size f) CHUNK_SIZE * CHUNK_SIZE"
    by (intro ceil_div_bounds(1) CHUNK_SIZE_pos) simp
  then show ?thesis
    by (simp add: plain_chunks_def concat_plain_chunks_aux file_size_def)
qed

lemma hashFileData_chunks: "snd (hashFileData pf f) = plain_chunks f"
  by (simp add: hashFileData_def Let_def hashFileData_loop_eq plain_chunks_def)

lemma encrypted_record_length_field:
  assumes "tag128 pf" and "j < length cs" and "length (cs ! j) \<le> CHUNK_SIZE"
  shows "getUint32 (encrypted_record pf mk mn cs j) 0 = Inr (length (cs ! j) + 16)"
proof -
  let ?nonce = "take 8 mn @ be32 j"
  let ?enc = "encryptChunk pf (cs ! j) (deriveChunkKeyBytes pf mk j) ?nonce"
  have len: "length ?enc = length (cs ! j) + 16"
    using assms(1) by (simp add: tag128_def encryptChunk_def)
  have "getUint32 ([] @ be32 (length ?enc) @ (?nonce @ ?enc)) 0
          = Inr (length ?enc mod 4294967296)"
    by (rule getUint32_at) simp
  moreover have "length ?enc < 4294967296"
    using assms(3) by (simp add: len CHUNK_SIZE_def)
  ultimately show ?thesis
    by (simp add: encrypted_record_def Let_def len)
qed

lemma length_encrypted_record:
  assumes "tag128 pf" and "length mn = 12"
  shows "length (encrypted_record pf mk mn cs j) = 4 + 12 + (length (cs ! j) + 16)"
  using assms by (simp add: encrypted_record_def Let_def tag128_def encryptChunk_def)

text \<open>
  Claim C6. For every input of at least one byte for which the key derivation gives a
  master secret, with the chunk size of 4 MiB, \<^verbatim>\<open>encryptFile\<close> returns a blob that is
  the serialized header followed by exactly \<open>\<lceil>originalSize / chunkSize\<rceil>\<close> chunk
  records, in the order of the array that the function fills; the length field of each
  record (its first four bytes, big-endian) is the length of the cleartext of that chunk
  plus 16, and the record has \<open>4 + 12\<close> bytes more than that; the cleartext of the last
  chunk has \<open>originalSize - (totalChunks - 1) * chunkSize\<close> bytes; and the chunks, end
  to end, are the input. The platform's AEAD is assumed to append its 16-byte tag.
\<close>

theorem encryptFile_chunk_records:
  assumes "tag128 pf" and "1 \<le> file_size (infile options)"
    and "deriveKeyArgon2Bytes pf (password options) (fst (generateSalt rng))
           (case opt_kdfMemory options of None \<Rightarrow> 65536 | Some m \<Rightarrow> m)
           (case opt_kdfIterations options of None \<Rightarrow> 3 | Some n \<Rightarrow> n)
           (case opt_kdfParallelism options of None \<Rightarrow> 4 | Some p \<Rightarrow> p) = Inr masterKeyBytes"
  shows "\<exists>hash headerBytes records r.
           encryptFile_chunks pf rng options = Inr (hash, headerBytes # records)
         \<and> encryptFile pf rng options = Inr r
         \<and> enc_blob r = headerBytes @ concat records
         \<and> CHUNK_SIZE = 4194304
         \<and> int (length records) = \<lceil>real (file_size (infile options)) / real CHUNK_SIZE\<rceil>
         \<and> list_all2 (\<lambda>r c. getUint32 r 0 = Inr (length c + 16)
                             \<and> length r = 4 + 12 + (length c + 16)) records
               (snd (hashFileData pf (infile options)))
         \<and> length (last (snd (hashFileData pf (infile options))))
               = file_size (infile options) - (length records - 1) * CHUNK_SIZE
         \<and> concat (snd (hashFileData pf (infile options))) = content (infile options)"
proof -
  let ?f = "infile options"
  let ?cs = "plain_chunks ?f"
  let ?rs = "written_records pf masterKeyBytes rng options"
  let ?h = "written_header pf rng options"
  let ?r = "\<lparr>enc_blob = header_layout ?h @ concat ?rs,
             enc_filename = name ?f @ ascii ''.skita'',
             enc_originalHash = originalHash ?h\<rparr>"
  have mk: "master_key pf rng options = Inr masterKeyBytes"
    using assms(3) by (simp only: master_key_eq)
  have n: "length ?rs = length ?cs"
    by (simp add: written_records_def)
  have pos: "0 < length ?cs"
    using assms(2) ceil_div_bounds(3) [OF CHUNK_SIZE_pos, of "file_size ?f"]
    by (simp add: length_plain_chunks)
  have fields: "list_all2 (\<lambda>r c. getUint32 r 0 = Inr (length c + 16)
                                  \<and> length r = 4 + 12 + (length c + 16)) ?rs ?cs"
  proof (rule list_all2_all_nthI [OF n])
    fix j assume "j < length ?rs"
    then have j: "j < length ?cs" by (simp add: n)
    have "getUint32 (?rs ! j) 0 = Inr (length (?cs ! j) + 16)"
      using encrypted_record_length_field [OF assms(1) j length_plain_chunk_le [OF j]] j
      by (simp add: written_records_def)
    moreover have "length (?rs ! j) = 4 + 12 + (length (?cs ! j) + 16)"
      using length_encrypted_record [OF assms(1), of "stake 12 (sdrop 32 rng)"] j
      by (simp add: written_records_def)
    ultimately show "getUint32 (?rs ! j) 0 = Inr (length (?cs ! j) + 16)
        \<and> length (?rs ! j) = 4 + 12 + (length (?cs ! j) + 16)"
      by (rule conjI)
  qed
  have last: "length (last ?cs) = file_size ?f - (length ?rs - 1) * CHUNK_SIZE"
    using pos length_plain_chunk [of "length ?cs - 1" ?f]
    by (simp add: last_conv_nth n)
  show ?thesis
  proof (intro exI conjI)
    show "encryptFile_chunks pf rng options
            = Inr (originalHash ?h, header_layout ?h # ?rs)"
      by (rule encryptFile_chunks_eq [OF mk])
    show "encryptFile pf rng options = Inr ?r"
      by (rule encryptFile_eq [OF mk])
    show "enc_blob ?r = header_layout ?h @ concat ?rs"
      by simp
    show "CHUNK_SIZE = 4194304"
      by (simp add: CHUNK_SIZE_def)
    show "int (length ?rs) = \<lceil>real (file_size ?f) / real CHUNK_SIZE\<rceil>"
      by (simp only: n length_plain_chunks ceil_div_ceiling [OF CHUNK_SIZE_pos])
    show "list_all2 (\<lambda>r c. getUint32 r 0 = Inr (length c + 16)
                          \<and> length r = 4 + 12 + (length c + 16)) ?rs
            (snd (hashFileData pf ?f))"
      using fields by (simp only: hashFileData_chunks)
    show "length (last (snd (hashFileData pf ?f)))
            = file_size ?f - (length ?rs - 1) * CHUNK_SIZE"
      using last by (simp only: hashFileData_chunks)
    show "concat (snd (hashFileData pf ?f)) = content ?f"
      by (simp only: hashFileData_chunks concat_plain_chunks)
  qed
qed

lemma sample_argon2id:
  "deriveKeyArgon2Bytes sample_platform pw s memory iterations parallelism =
     (if pw = [] \<or> iterations = 0 then Inl KdfFailure
      else Inr (replicate 32 (of_nat (length pw))))"
  by (simp add: deriveKeyArgon2Bytes_def sample_platform_def)

lemma hello_kdf_sample:
  "deriveKeyArgon2Bytes sample_platform (password hello_options) (fst (generateSalt rng))
     (case opt_kdfMemory hello_options of None \<Rightarrow> 65536 | Some m \<Rightarrow> m)
     (case opt_kdfIterations hello_options of None \<Rightarrow> 3 | Some n \<Rightarrow> n)
     (case opt_kdfParallelism hello_options of None \<Rightarrow> 4 | Some p \<Rightarrow> p)
   = Inr sample_master_key"
  by (simp add: sample_argon2id hello_options_def sample_master_key_def ascii_def)

theorem encryptFile_chunk_records_witness:
  "tag128 sample_platform \<and> 1 \<le> file_size (infile hello_options)
   \<and> deriveKeyArgon2Bytes sample_platform (password hello_options)
         (fst (generateSalt (sconst 0)))
         (case opt_kdfMemory hello_options of None \<Rightarrow> 65536 | Some m \<Rightarrow> m)
         (case opt_kdfIterations hello_options of None \<Rightarrow> 3 | Some n \<Rightarrow> n)
         (case opt_kdfParallelism hello_options of None \<Rightarrow> 4 | Some p \<Rightarrow> p)
       = Inr sample_master_key
   \<and> (\<exists>hash headerBytes records r.
           encryptFile_chunks sample_platform (sconst 0) hello_options
             = Inr (hash, headerBytes # records)
         \<and> encryptFile sample_platform (sconst 0) hello_options = Inr r
         \<and> enc_blob r = headerBytes @ concat records
         \<and> CHUNK_SIZE = 4194304
         \<and> int (length records)
               = \<lceil>real (file_size (infile hello_options)) / real CHUNK_SIZE\<rceil>
         \<and> list_all2 (\<lambda>r c. getUint32 r 0 = Inr (length c + 16)
                             \<and> length r = 4 + 12 + (length c + 16)) records
               (snd (hashFileData sample_platform (infile hello_options)))
         \<and> length (last (snd (hashFileData sample_platform (infile hello_options))))
               = file_size (infile hello_options) - (length records - 1) * CHUNK_SIZE
         \<and> concat (snd (hashFileData sample_platform (infile hello_options)))
               = content (infile hello_options))"
proof -
  have size: "1 \<le> file_size (infile hello_options)"
    by (simp add: hello_options_def hello_file_def file_size_def)
  show ?thesis
    using tag128_sample size hello_kdf_sample [of "sconst 0"]
      encryptFile_chunk_records [OF tag128_sample size hello_kdf_sample [of "sconst 0"]]
    by (intro conjI)
qed

subsection \<open>Encrypting and decrypting whole files\<close>

lemma length_header_layout:
  "length (magic h) = 4 \<Longrightarrow> length (salt h) = 32 \<Longrightarrow>
   length (header_layout h) = 63 + length (utf8_encode (originalFilename h))"
  by (simp add: header_layout_def length_header_fixed)


lemma header_data_layout:
  assumes "length (magic h) = 4" and "length (salt h) = 32"
  shows "slice (header_layout h @ body) 0 2048
           = header_fixed h @ take 1985 (utf8_encode (originalFilename h) @ body)"
  using assms by (simp add: slice_def header_layout_def length_header_fixed)

lemma decryptFile_layout:
  assumes "magic h = MAGIC_BYTES" and "length (salt h) = 32"
  shows "decryptFile pf \<lparr>infile = \<lparr>name = nm, content = header_layout h @ body\<rparr>, password = pw\<rparr> =
     bindE (deriveKeyArgon2Bytes pf pw (salt h) (kdfMemory h mod 4294967296)
              (kdfIterations h mod 4294967296) (kdfParallelism h mod 256))
       (\<lambda>masterKeyBytes.
     bindE (decrypt_loop pf (algorithm h) (header_layout h @ body) masterKeyBytes
              (totalChunks h mod 4294967296) 0
              (63 + (originalSize h mod 256 * 256 + totalChunks h div 16777216 mod 256)) [])
       (\<lambda>(offset, decryptedChunks).
          Inr \<lparr>blob = concat decryptedChunks,
               filename = text_decode pf
                 (take (length (utf8_encode (originalFilename h)) mod 65536)
                    (take 1985 (utf8_encode (originalFilename h) @ body))),
               verified = False, dec_originalHash = None, decryptedHash = None\<rparr>))"
proof -
  have len: "length (magic h) = 4"
    using assms(1) by (simp add: MAGIC_BYTES_def)
  show ?thesis
    unfolding decryptFile_def Let_def
    by (simp add: header_data_layout [OF len assms(2)] deserializeHeader_fixed [OF assms]
          getHeaderSize_fixed [OF len assms(2)] header_originalHash_def)
qed

lemma written_header_kdf:
  "salt (written_header pf rng options) = stake 32 rng"
  "kdfMemory (written_header pf rng options)
     = (case opt_kdfMemory options of None \<Rightarrow> 65536 | Some m \<Rightarrow> m)"
  "kdfIterations (written_header pf rng options)
     = (case opt_kdfIterations options of None \<Rightarrow> 3 | Some n \<Rightarrow> n)"
  "kdfParallelism (written_header pf rng options)
     = (case opt_kdfParallelism options of None \<Rightarrow> 4 | Some p \<Rightarrow> p)"
  by (simp_all add: written_header_def)


lemma plain_chunks_hello: "plain_chunks hello_file = [map of_char ''hello'']"
  by (simp add: plain_chunks_def hello_file_def file_size_def ceil_div_def CHUNK_SIZE_def
        slice_def)

lemma utf8_hello_txt: "utf8_encode (ascii ''hello.txt'') = map of_char ''hello.txt''"
  by (simp add: utf8_encode_ascii ascii_def)

lemma written_records_hello:
  assumes "tag128 pf"
  shows "\<exists>chunkRecord. written_records pf mk rng hello_options = [chunkRecord]
           \<and> length chunkRecord = 37"
proof -
  have "length (encrypted_record pf mk (stake 12 s) [map of_char ''hello''] 0) = 37" for s
    using assms
    by (simp add: encrypted_record_def Let_def tag128_def encryptChunk_def)
  then show ?thesis
    by (simp add: written_records_def hello_options_def plain_chunks_hello)
qed

lemma written_header_hello:
  "originalSize (written_header pf rng hello_options) = 5"
  "totalChunks (written_header pf rng hello_options) = 1"
  "originalFilename (written_header pf rng hello_options) = ascii ''hello.txt''"
  by (simp_all add: written_header_def hello_options_def plain_chunks_hello)
    (simp_all add: hello_file_def file_size_def)

lemma hello_defaults:
  "password hello_options = ascii ''pw''"
  "opt_kdfMemory hello_options = None"
  "opt_kdfIterations hello_options = None"
  "opt_kdfParallelism hello_options = None"
  by (simp_all add: hello_options_def)

lemma hello_kdf_defaults:
  "deriveKeyArgon2Bytes sample_platform (ascii ''pw'') (fst (generateSalt rng)) 65536 3 4
     = Inr sample_master_key"
  by (simp add: sample_argon2id sample_master_key_def ascii_def)

text \<open>
  Claim C3, on the code. For the plaintext \<^verbatim>\<open>hello\<close>, the file name \<^verbatim>\<open>hello.txt\<close>, the
  password \<^verbatim>\<open>pw\<close> and the default parameters (64 MiB, 3 iterations, 4 lanes), once the
  key derivation has given a master secret, \<^verbatim>\<open>encryptFile\<close> assembles two parts, the
  72-byte header and one 37-byte chunk record, 109 bytes in all: \<^verbatim>\<open>serializeHeader\<close>
  writes no plaintext hash, so the 141 bytes of the claim are not reached. The platform's
  AEAD is assumed to append its 16-byte tag.
\<close>

theorem hello_container_size:
  assumes "tag128 pf"
    and "deriveKeyArgon2Bytes pf (ascii ''pw'') (fst (generateSalt rng)) 65536 3 4
           = Inr masterKeyBytes"
  shows "\<exists>hash headerBytes chunkRecord r.
           encryptFile_chunks pf rng hello_options = Inr (hash, [headerBytes, chunkRecord])
         \<and> length headerBytes = 72 \<and> length chunkRecord = 37
         \<and> encryptFile pf rng hello_options = Inr r
         \<and> enc_blob r = headerBytes @ chunkRecord
         \<and> length (enc_blob r) = 109"
proof -
  let ?h = "written_header pf rng hello_options"
  have mk: "master_key pf rng hello_options = Inr masterKeyBytes"
    using assms(2) by (simp add: master_key_eq hello_defaults)
  obtain chunkRecord
    where rec: "written_records pf masterKeyBytes rng hello_options = [chunkRecord]"
    and len: "length chunkRecord = 37"
    using written_records_hello [OF assms(1)] by blast
  have hlen: "length (header_layout ?h) = 72"
    using length_header_layout [OF written_header_lengths(1,2), of pf rng hello_options]
    by (simp add: written_header_hello utf8_hello_txt)
  show ?thesis
  proof (intro exI conjI)
    show "encryptFile_chunks pf rng hello_options
            = Inr (originalHash ?h, [header_layout ?h, chunkRecord])"
      by (simp add: encryptFile_chunks_eq [OF mk] rec)
    show "length (header_layout ?h) = 72" by (rule hlen)
    show "length chunkRecord = 37" by (rule len)
    show "encryptFile pf rng hello_options
            = Inr \<lparr>enc_blob = header_layout ?h @ chunkRecord,
                   enc_filename = name (infile hello_options) @ ascii ''.skita'',
                   enc_originalHash = originalHash ?h\<rparr>"
      by (simp add: encryptFile_eq [OF mk] rec)
    show "enc_blob \<lparr>enc_blob = header_layout ?h @ chunkRecord,
                   enc_filename = name (infile hello_options) @ ascii ''.skita'',
                   enc_originalHash = originalHash ?h\<rparr> = header_layout ?h @ chunkRecord"
      by simp
    show "length (enc_blob \<lparr>enc_blob = header_layout ?h @ chunkRecord,
                   enc_filename = name (infile hello_options) @ ascii ''.skita'',
                   enc_originalHash = originalHash ?h\<rparr>) = 109"
      by (simp add: hlen len)
  qed
qed

theorem hello_container_size_witness:
  "tag128 sample_platform
   \<and> deriveKeyArgon2Bytes sample_platform (ascii ''pw'') (fst (generateSalt (sconst 0)))
         65536 3 4 = Inr sample_master_key
   \<and> (\<exists>hash headerBytes chunkRecord r.
           encryptFile_chunks sample_platform (sconst 0) hello_options
             = Inr (hash, [headerBytes, chunkRecord])
         \<and> length headerBytes = 72 \<and> length chunkRecord = 37
         \<and> encryptFile sample_platform (sconst 0) hello_options = Inr r
         \<and> enc_blob r = headerBytes @ chunkRecord
         \<and> length (enc_blob r) = 109)"
  using tag128_sample hello_kdf_defaults [of "sconst 0"]
    hello_container_size [OF tag128_sample hello_kdf_defaults [of "sconst 0"]]
  by (intro conjI)

text \<open>
  Claim C1, on the code. The container that \<^verbatim>\<open>encryptFile\<close> produces for \<^verbatim>\<open>hello\<close>,
  \<^verbatim>\<open>hello.txt\<close> and \<^verbatim>\<open>pw\<close> with the default parameters, once the key derivation has
  given a master secret, is not decrypted by \<^verbatim>\<open>decryptFile\<close> under the same password:
  \<^verbatim>\<open>getHeaderSize\<close> reads the u16 at offset 56 (the low byte of the original size and
  the high byte of the chunk count), so the first chunk record is looked for at offset
  \<open>63 + 5 * 256 = 1343\<close> of a 109-byte file, and \<^verbatim>\<open>getUint32\<close> on the empty slice
  raises a RangeError. The platform's AEAD is assumed to append its 16-byte tag.
\<close>

theorem hello_round_trip_fails:
  assumes "tag128 pf"
    and "deriveKeyArgon2Bytes pf (ascii ''pw'') (fst (generateSalt rng)) 65536 3 4
           = Inr masterKeyBytes"
  shows "\<exists>r. encryptFile pf rng hello_options = Inr r
           \<and> decryptFile pf \<lparr>infile = \<lparr>name = enc_filename r, content = enc_blob r\<rparr>,
                              password = password hello_options\<rparr> = Inl RangeError"
proof -
  let ?h = "written_header pf rng hello_options"
  have kdf: "deriveKeyArgon2Bytes pf (ascii ''pw'') (stake 32 rng) 65536 3 4
               = Inr masterKeyBytes"
    using assms(2) by (simp add: generateSalt_def generateRandomBytes_def)
  have mk: "master_key pf rng hello_options = Inr masterKeyBytes"
    using assms(2) by (simp add: master_key_eq hello_defaults)
  obtain chunkRecord
    where rec: "written_records pf masterKeyBytes rng hello_options = [chunkRecord]"
    and len: "length chunkRecord = 37"
    using written_records_hello [OF assms(1)] by blast
  have hlen: "length (header_layout ?h) = 72"
    using length_header_layout [OF written_header_lengths(1,2), of pf rng hello_options]
    by (simp add: written_header_hello utf8_hello_txt)
  have loop: "decrypt_loop pf algo (header_layout ?h @ chunkRecord) mk (Suc 0) 0 1343 [] = Inl RangeError"
    for algo mk
    by (subst decrypt_loop.simps) (simp add: slice_def hlen len getUint32_def)
  have "decryptFile pf \<lparr>infile = \<lparr>name = nm, content = header_layout ?h @ chunkRecord\<rparr>,
                         password = ascii ''pw''\<rparr> = Inl RangeError" for nm
    by (subst decryptFile_layout)
      (simp_all add: written_header_lengths written_header_hello written_header_kdf
         hello_defaults kdf loop)
  then show ?thesis
    by (simp add: encryptFile_eq [OF mk] rec hello_defaults)
qed

theorem hello_round_trip_fails_witness:
  "tag128 sample_platform
   \<and> deriveKeyArgon2Bytes sample_platform (ascii ''pw'') (fst (generateSalt (sconst 0)))
         65536 3 4 = Inr sample_master_key
   \<and> (\<exists>r. encryptFile sample_platform (sconst 0) hello_options = Inr r
           \<and> decryptFile sample_platform
                 \<lparr>infile = \<lparr>name = enc_filename r, content = enc_blob r\<rparr>,
                  password = password hello_options\<rparr> = Inl RangeError)"
  using tag128_sample hello_kdf_defaults [of "sconst 0"]
    hello_round_trip_fails [OF tag128_sample hello_kdf_defaults [of "sconst 0"]]
  by (intro conjI)

subsection \<open>The header size that the decryption reads\<close>

lemma getHeaderSize_serialized:
  assumes "length (magic h) = 4" and "length (salt h) = 32"
  shows "serializeHeader h = Inr (header_layout h)"
    and "getHeaderSize (header_layout h)
           = Inr (63 + (originalSize h mod 256 * 256 + totalChunks h div 16777216 mod 256))"
    and "getUint16 (header_layout h) 61
           = Inr (length (utf8_encode (originalFilename h)) mod 65536)"
  using assms
  by (simp_all add: serializeHeader_layout header_layout_def getHeaderSize_fixed
        header_fixed_reads)

text \<open>The header of the sample file, byte by byte, from the definitions alone.\<close>

lemma serializeHeader_hello_bytes:
  "serializeHeader hello_header = Inr
    [83, 75, 84, 65, 0, 1, 0, 0, 0, 1, 0, 0, 0, 0, 0, 3, 4,
     0, 0, 0, 0, 0, 0, 0, 0, 0, 0, 0, 0, 0, 0, 0, 0,
     0, 0, 0, 0, 0, 0, 0, 0, 0, 0, 0, 0, 0, 0, 0, 0,
     0, 64, 0, 0, 0, 0, 0, 5, 0, 0, 0, 1, 0, 9,
     104, 101, 108, 108, 111, 46, 116, 120, 116]"
proof -
  have zeros: "replicate 32 (0 :: byte) =
      [0, 0, 0, 0, 0, 0, 0, 0, 0, 0, 0, 0, 0, 0, 0, 0, 0, 0, 0, 0, 0, 0, 0, 0,
       0, 0, 0, 0, 0, 0, 0, 0]"
    by (simp add: eval_nat_numeral)
  show ?thesis
    by (simp add: serializeHeader_def hello_header_def Let_def utf8_hello_txt write_at_def
          setUint16_def setUint8_def setUint32_def be16_def be32_def MAGIC_BYTES_def
          FORMAT_VERSION_def CHUNK_SIZE_def zeros)
qed

text \<open>
  Claim C2, on the code. For the header of \<^verbatim>\<open>hello.txt\<close> (file name of 9 bytes, original
  size 5, one chunk) \<^verbatim>\<open>serializeHeader\<close> gives 72 bytes whose u16 at offset 61 is 9, and
  \<^verbatim>\<open>getHeaderSize\<close> returns 1343 on them, not \<open>63 + 9 = 72\<close>: it reads the u16 at
  offset 56.
\<close>

theorem getHeaderSize_hello:
  "case serializeHeader hello_header of
     Inl e \<Rightarrow> False
   | Inr headerBytes \<Rightarrow>
       length headerBytes = 72 \<and> getUint16 headerBytes 61 = Inr 9
       \<and> getHeaderSize headerBytes = Inr 1343"
proof -
  have m: "length (magic hello_header) = 4" and s: "length (salt hello_header) = 32"
    by (simp_all add: hello_header_def MAGIC_BYTES_def)
  note facts = getHeaderSize_serialized [OF m s]
  have f: "originalFilename hello_header = ascii ''hello.txt''"
    "originalSize hello_header = 5" "totalChunks hello_header = 1"
    by (simp_all add: hello_header_def)
  have "length (header_layout hello_header) = 72"
    using length_header_layout [OF m s] by (simp add: f utf8_hello_txt)
  moreover have "getUint16 (header_layout hello_header) 61 = Inr 9"
    using facts(3) by (simp add: f utf8_hello_txt)
  moreover have "getHeaderSize (header_layout hello_header) = Inr 1343"
    using facts(2) by (simp add: f)
  ultimately show ?thesis
    by (simp add: facts(1))
qed

subsection \<open>Empty input\<close>

lemma sample_text_decode:
  "take 3 bs \<noteq> [239, 187, 191] \<Longrightarrow> text_decode sample_platform bs = map ucast bs"
  by (simp add: sample_platform_def)







subsection \<open>The algorithm byte\<close>

lemma slice_update_above:
  "k < s \<Longrightarrow> slice (xs[k := x]) s e = slice xs s e"
  by (simp add: slice_def drop_update_cancel)

lemma slice_update_below:
  "e \<le> k \<Longrightarrow> slice (xs[k := x]) 0 e = slice xs 0 e"
  by (simp add: slice_def take_update_cancel)

lemma slice_update_prefix:
  "slice (xs[k := x]) 0 e = (slice xs 0 e)[k := x]"
  by (simp add: slice_def take_update_swap)

lemma getUint8_update_other:
  "k \<noteq> off \<Longrightarrow> getUint8 (xs[k := x]) off = getUint8 xs off"
  by (simp add: getUint8_def)

lemma getUint16_update_other:
  "k \<noteq> off \<Longrightarrow> k \<noteq> off + 1 \<Longrightarrow> getUint16 (xs[k := x]) off = getUint16 xs off"
  by (simp add: getUint16_def)

lemma getUint32_update_other:
  "k < off \<or> off + 3 < k \<Longrightarrow> getUint32 (xs[k := x]) off = getUint32 xs off"
  by (auto simp: getUint32_def)

lemma decrypt_loop_independent:
  "6 < offset \<Longrightarrow>
   decrypt_loop pf algo' (fileBytes[6 := b]) mk n i offset chunks
     = decrypt_loop pf algo fileBytes mk n i offset chunks"
proof (induction pf algo fileBytes mk n i offset chunks rule: decrypt_loop.induct)
  case (1 pf algo fileBytes mk n i offset chunks)
  show ?case
  proof (cases "i < n")
    case False
    then show ?thesis
      by (simp add: decrypt_loop.simps [of _ _ _ _ n i])
  next
    case True
    have s1: "slice (fileBytes[6 := b]) offset (offset + 16) = slice fileBytes offset (offset + 16)"
      using "1.prems" by (simp add: slice_update_above)
    have s2: "slice (fileBytes[6 := b]) (offset + 16) e = slice fileBytes (offset + 16) e" for e
      using "1.prems" by (simp add: slice_update_above)
    show ?thesis
    proof (cases "getUint32 (slice fileBytes offset (offset + 16)) 0")
      case (Inl e)
      then show ?thesis
        using True by (simp add: decrypt_loop.simps [of _ _ _ _ n i] s1)
    next
      case (Inr encryptedLength)
      show ?thesis
      proof (cases "decryptChunk pf
          (slice fileBytes (offset + 16) (offset + 16 + encryptedLength))
          (deriveChunkKeyBytes pf mk i) (slice (slice fileBytes offset (offset + 16)) 4 16)")
        case (Inl e)
        then show ?thesis
          using True Inr by (simp add: decrypt_loop.simps [of _ _ _ _ n i] s1 s2)
      next
        case (Inr decryptedChunk)
        have "6 < offset + 16 + encryptedLength"
          using "1.prems" by simp
        with "1.IH" [OF True refl \<open>getUint32 _ 0 = Inr encryptedLength\<close> refl refl refl Inr]
        show ?thesis
          using True Inr \<open>getUint32 _ 0 = Inr encryptedLength\<close>
          by (simp add: decrypt_loop.simps [of _ _ _ _ n i] s1 s2)
      qed
    qed
  qed
qed

lemma getUint8_update_same:
  "getUint8 (xs[k := x]) k = (if length xs < k + 1 then Inl RangeError else Inr (unat x))"
  by (simp add: getUint8_def)

lemma deserializeHeader_algorithm_byte:
  "deserializeHeader pf (d[6 := b]) =
     (case deserializeHeader pf d of
        Inl e \<Rightarrow> Inl e
      | Inr h \<Rightarrow> Inr (h\<lparr>algorithm := if unat b = 0 then AES_GCM else ChaCha20_Poly1305\<rparr>))"
proof -
  have reads:
    "slice (d[6 := b]) 0 4 = slice d 0 4"
    "getUint16 (d[6 := b]) 4 = getUint16 d 4"
    "getUint8 (d[6 := b]) 7 = getUint8 d 7"
    "getUint32 (d[6 := b]) 8 = getUint32 d 8"
    "getUint32 (d[6 := b]) 12 = getUint32 d 12"
    "getUint8 (d[6 := b]) 16 = getUint8 d 16"
    "slice (d[6 := b]) 17 49 = slice d 17 49"
    "getUint32 (d[6 := b]) 49 = getUint32 d 49"
    "getUint32 (d[6 := b]) 53 = getUint32 d 53"
    "getUint32 (d[6 := b]) 57 = getUint32 d 57"
    "getUint16 (d[6 := b]) 61 = getUint16 d 61"
    "\<And>k. slice (d[6 := b]) 63 (63 + k) = slice d 63 (63 + k)"
    by (simp_all add: slice_update_above slice_update_below getUint8_update_other
          getUint16_update_other getUint32_update_other)
  show ?thesis
  proof (cases "length d < 7")
    case True
    then show ?thesis
      by (simp add: deserializeHeader_def Let_def reads getUint8_def bindE_def
            split: sum.splits)
  next
    case False
    then show ?thesis
      by (simp add: deserializeHeader_def Let_def reads getUint8_update_same getUint8_def
            bindE_def split: sum.splits)
  qed
qed

lemma getHeaderSize_update: "getHeaderSize (d[6 := b]) = getHeaderSize d"
  by (simp add: getHeaderSize_def getUint16_update_other)

lemma getHeaderSize_min: "getHeaderSize d = Inr hs \<Longrightarrow> 63 \<le> hs"
  by (auto simp: getHeaderSize_def bindE_def split: sum.splits)

lemma decrypt_loop_record:
  assumes "length pre = offset" and "length nonce = 12" and "length enc < 4294967296"
    and "decryptChunk pf enc (deriveChunkKeyBytes pf mk i) nonce = Inr p" and "i < n"
  shows "decrypt_loop pf algo (pre @ be32 (length enc) @ nonce @ enc @ rest) mk n i offset acc
           = decrypt_loop pf algo (pre @ be32 (length enc) @ nonce @ enc @ rest) mk n
               (Suc i) (offset + 16 + length enc) (acc @ [p])"
proof -
  let ?file = "pre @ be32 (length enc) @ nonce @ enc @ rest"
  have hd: "slice ?file offset (offset + 16) = be32 (length enc) @ nonce"
    using assms(1,2) by (simp add: slice_def)
  have len: "getUint32 (be32 (length enc) @ nonce) 0 = Inr (length enc)"
    using getUint32_at [of "[]" 0 "length enc" nonce] assms(3) by simp
  have nonce: "slice (be32 (length enc) @ nonce) 4 16 = nonce"
    using assms(2) by (simp add: slice_def)
  have data: "slice ?file (offset + 16) (offset + 16 + length enc) = enc"
    using assms(1,2) by (simp add: slice_def)
  show ?thesis
    using assms(4,5)
    by (subst decrypt_loop.simps) (simp add: hd len nonce data)
qed

lemma sample_open_seal:
  "decryptChunk sample_platform (encryptChunk sample_platform p k iv) k iv = Inr p"
  by (simp add: decryptChunk_def encryptChunk_def sample_platform_def)


text \<open>
  The algorithm byte has no part in the decryption: whatever byte stands at offset 6 of
  a container, \<^verbatim>\<open>decryptFile\<close> gives the same result (plaintext or error).
  \<^verbatim>\<open>deserializeHeader\<close> takes every byte other than 0 for ChaCha20-Poly1305 and rejects
  none, and \<^verbatim>\<open>decryptChunk\<close> has no parameter for the algorithm that the worker passes
  to it.
\<close>

lemma decryptFile_algorithm_byte:
  "decryptFile pf \<lparr>infile = \<lparr>name = nm, content = c[6 := b]\<rparr>, password = pw\<rparr>
     = decryptFile pf \<lparr>infile = \<lparr>name = nm, content = c\<rparr>, password = pw\<rparr>"
proof -
  let ?d = "slice c 0 2048"
  have d: "slice (c[6 := b]) 0 2048 = ?d[6 := b]"
    by (rule slice_update_prefix)
  show ?thesis
  proof (cases "deserializeHeader pf ?d")
    case (Inl e)
    then show ?thesis
      by (simp add: decryptFile_def Let_def d deserializeHeader_algorithm_byte)
  next
    case (Inr h)
    show ?thesis
    proof (cases "getHeaderSize ?d")
      case (Inl e)
      then show ?thesis
        using Inr
        by (simp add: decryptFile_def Let_def d deserializeHeader_algorithm_byte
              getHeaderSize_update)
    next
      case (Inr hs)
      from getHeaderSize_min [OF Inr] have "6 < hs" by simp
      then have loop: "decrypt_loop pf algo' (c[6 := b]) mk n 0 hs []
          = decrypt_loop pf (algorithm h) c mk n 0 hs []" for algo' mk n
        by (rule decrypt_loop_independent)
      show ?thesis
        using Inr \<open>deserializeHeader pf ?d = Inr h\<close>
        by (simp add: decryptFile_def Let_def d deserializeHeader_algorithm_byte
              getHeaderSize_update loop header_originalHash_def)
    qed
  qed
qed


subsection \<open>Authentication failure\<close>

lemma decrypt_loop_prefix:
  "decrypt_loop pf algo fileBytes mk k i offset chunks = Inr (offset', chunks') \<Longrightarrow>
   k \<le> n \<Longrightarrow> i \<le> k \<Longrightarrow>
   decrypt_loop pf algo fileBytes mk n i offset chunks
     = decrypt_loop pf algo fileBytes mk n k offset' chunks'"
proof (induction pf algo fileBytes mk k i offset chunks rule: decrypt_loop.induct)
  case (1 pf algo fileBytes mk k i offset chunks)
  show ?case
  proof (cases "i < k")
    case False
    with "1.prems" show ?thesis
      by (simp add: decrypt_loop.simps [of _ _ _ _ k i])
  next
    case True
    with "1.prems" have n: "i < n" by simp
    obtain len where len: "getUint32 (slice fileBytes offset (offset + 16)) 0 = Inr len"
      using "1.prems"(1) True
      by (cases "getUint32 (slice fileBytes offset (offset + 16)) 0")
        (simp_all add: decrypt_loop.simps [of _ _ _ _ k i])
    obtain p where p: "decryptChunk pf (slice fileBytes (offset + 16) (offset + 16 + len))
        (deriveChunkKeyBytes pf mk i) (slice (slice fileBytes offset (offset + 16)) 4 16) = Inr p"
      using "1.prems"(1) True len
      by (cases "decryptChunk pf (slice fileBytes (offset + 16) (offset + 16 + len))
            (deriveChunkKeyBytes pf mk i) (slice (slice fileBytes offset (offset + 16)) 4 16)")
        (simp_all add: decrypt_loop.simps [of _ _ _ _ k i])
    have run: "decrypt_loop pf algo fileBytes mk k (i + 1) (offset + 16 + len) (chunks @ [p])
        = Inr (offset', chunks')"
      using "1.prems"(1) True len p by (simp add: decrypt_loop.simps [of _ _ _ _ k i])
    have "decrypt_loop pf algo fileBytes mk n (i + 1) (offset + 16 + len) (chunks @ [p])
        = decrypt_loop pf algo fileBytes mk n k offset' chunks'"
      using "1.IH" [OF True refl len refl refl refl p run] "1.prems"(2) True by simp
    then show ?thesis
      using n len p by (simp add: decrypt_loop.simps [of _ _ _ _ n i])
  qed
qed

lemma decrypt_loop_chunk_fails:
  assumes "i < n"
    and "getUint32 (slice fileBytes offset (offset + 16)) 0 = Inr encryptedLength"
    and "decryptChunk pf (slice fileBytes (offset + 16) (offset + 16 + encryptedLength))
           (deriveChunkKeyBytes pf mk i) (slice (slice fileBytes offset (offset + 16)) 4 16)
         = Inl e"
  shows "decrypt_loop pf algo fileBytes mk n i offset chunks = Inl DecryptFailed"
  using assms by (simp add: decrypt_loop.simps [of _ _ _ _ n i])

lemma sample_open_wrong_tag:
  "decryptChunk sample_platform (p @ replicate 16 (sum_list (k @ iv) + 1)) k iv
     = Inl OperationError"
proof -
  let ?t = "sum_list (k @ iv)"
  have "replicate 16 (?t + 1) \<noteq> replicate 16 ?t"
    by simp
  then have "aes_gcm_decrypt sample_platform k iv (p @ replicate 16 (?t + 1)) = None"
    by (simp add: sample_platform_def)
  then show ?thesis
    by (simp add: decryptChunk_def)
qed

text \<open>
  Claim C5. Let \<^verbatim>\<open>decryptFile\<close> have parsed the header and derived the master
  secret, and let its loop have decrypted
  the chunks before chunk \<open>i\<close> (run with the bound \<open>i\<close> it ends in the state
  \<open>(offset, decryptedChunks)\<close>). If the AEAD then rejects chunk \<open>i\<close>, the call ends with
  the error whose message is \<^verbatim>\<open>Dekripsi gagal: Password salah atau file rusak\<close>; the
  result is this error alone, so no plaintext of the chunks decrypted before is returned.
\<close>

theorem decryptFile_auth_failure:
  assumes "deserializeHeader pf (slice (content f) 0 2048) = Inr header"
    and "getHeaderSize (slice (content f) 0 2048) = Inr headerSize"
    and "deriveKeyArgon2Bytes pf pw (salt header) (kdfMemory header)
           (kdfIterations header) (kdfParallelism header) = Inr mk"
    and "decrypt_loop pf (algorithm header) (content f) mk i 0 headerSize []
           = Inr (offset, decryptedChunks)"
    and "i < totalChunks header"
    and "getUint32 (slice (content f) offset (offset + 16)) 0 = Inr encryptedLength"
    and "decryptChunk pf (slice (content f) (offset + 16) (offset + 16 + encryptedLength))
           (deriveChunkKeyBytes pf mk i) (slice (slice (content f) offset (offset + 16)) 4 16)
         = Inl e"
  shows "decryptFile pf \<lparr>infile = f, password = pw\<rparr> = Inl DecryptFailed
         \<and> message DecryptFailed = ''Dekripsi gagal: Password salah atau file rusak''"
proof -
  have "decrypt_loop pf (algorithm header) (content f) mk (totalChunks header) 0 headerSize []
          = decrypt_loop pf (algorithm header) (content f) mk (totalChunks header) i offset
              decryptedChunks"
    using assms(4,5) by (intro decrypt_loop_prefix) simp_all
  also have "\<dots> = Inl DecryptFailed"
    using assms(5,6,7) by (rule decrypt_loop_chunk_fails)
  finally show ?thesis
    using assms(1,2,3) by (simp add: decryptFile_def Let_def)
qed


theorem decryptFile_auth_failure_witness:
  "decryptFile sample_platform \<lparr>infile = tampered_file, password = ascii ''pw''\<rparr>
     = Inl DecryptFailed
   \<and> message DecryptFailed = ''Dekripsi gagal: Password salah atau file rusak''"
proof -
  let ?pf = sample_platform
  let ?h = two_chunk_header
  let ?c = "content tampered_file"
  let ?n0 = "replicate 8 (0 :: byte) @ be32 0"
  let ?n1 = "replicate 8 (0 :: byte) @ be32 1"
  let ?enc = "encryptChunk ?pf [1, 2, 3] (deriveChunkKeyBytes ?pf sample_master_key 0) ?n0"
  let ?bad = "[9] @ replicate 16 (sum_list (deriveChunkKeyBytes ?pf sample_master_key 1 @ ?n1) + 1)"
  have m: "magic ?h = MAGIC_BYTES" and s: "length (salt ?h) = 32"
    and m4: "length (magic ?h) = 4"
    by (simp_all add: two_chunk_header_def MAGIC_BYTES_def)
  have f: "originalFilename ?h = []" "originalSize ?h = 256" "totalChunks ?h = 2"
    "salt ?h = replicate 32 0" "kdfMemory ?h = 65536" "kdfIterations ?h = 3"
    "kdfParallelism ?h = 4" "algorithm ?h = AES_GCM" "version ?h = 1"
    "chunkSize ?h = 4194304" "kdf ?h = Argon2id"
    by (simp_all add: two_chunk_header_def FORMAT_VERSION_def CHUNK_SIZE_def)
  have c: "?c = header_layout ?h @ be32 (length ?enc) @ ?n0 @ ?enc @ be32 17 @ ?n1 @ ?bad"
    by (simp add: tampered_file_def good_record_def bad_record_def encrypted_record_def Let_def)
  have enc_len: "length ?enc = 19"
    using tag128_sample by (simp add: tag128_def encryptChunk_def)
  have hlen: "length (header_layout ?h) = 63"
    using length_header_layout [OF m4 s] by (simp add: f utf8_encode_def)
  have hd: "slice ?c 0 2048 = header_fixed ?h @ take 1985 (utf8_encode (originalFilename ?h)
              @ be32 (length ?enc) @ ?n0 @ ?enc @ be32 17 @ ?n1 @ ?bad)"
    unfolding c by (rule header_data_layout [OF m4 s])
  have h1: "deserializeHeader ?pf (slice ?c 0 2048) = Inr ?h"
    unfolding hd deserializeHeader_fixed [OF m s]
    by (simp add: f two_chunk_header_def utf8_encode_def sample_text_decode
          FORMAT_VERSION_def CHUNK_SIZE_def)
  have h2: "getHeaderSize (slice ?c 0 2048) = Inr 63"
    unfolding hd getHeaderSize_fixed [OF m4 s] by (simp add: f)
  have h3: "deriveKeyArgon2Bytes ?pf (ascii ''pw'') (salt ?h)
              (kdfMemory ?h) (kdfIterations ?h) (kdfParallelism ?h) = Inr sample_master_key"
    by (simp add: sample_argon2id sample_master_key_def f ascii_def)
  have h4: "decrypt_loop ?pf (algorithm ?h) ?c sample_master_key 1 0 63 [] = Inr (98, [[1, 2, 3]])"
    unfolding c
    by (subst decrypt_loop_record [where p = "[1, 2, 3]"])
      (simp_all add: hlen enc_len sample_open_seal decrypt_loop.simps [of _ _ _ _ "Suc 0" "Suc 0"])
  have h5: "1 < totalChunks ?h"
    by (simp add: f)
  have h6: "getUint32 (slice ?c 98 (98 + 16)) 0 = Inr 17"
    using getUint32_at [of "[]" 0 17 ?n1]
    by (simp add: c slice_def hlen enc_len)
  have data: "slice ?c 114 131 = ?bad"
    by (simp add: c slice_def hlen enc_len)
  have nonce: "slice (slice ?c 98 114) 4 16 = ?n1"
    by (simp add: c slice_def hlen enc_len)
  have h7: "decryptChunk ?pf (slice ?c (98 + 16) (98 + 16 + 17))
              (deriveChunkKeyBytes ?pf sample_master_key 1)
              (slice (slice ?c 98 (98 + 16)) 4 16) = Inl OperationError"
    using sample_open_wrong_tag [of "[9]" "deriveChunkKeyBytes ?pf sample_master_key 1" ?n1]
    by (simp add: data nonce)
  show ?thesis
    by (rule decryptFile_auth_failure [OF h1 h2 h3 h4 h5 h6 h7])
qed

subsection \<open>Chunk key\<close>

lemma number_toString_digits:
  "number_toString n = map (\<lambda>d. of_nat (48 + d)) (digits n)"
proof (induction n rule: digits.induct)
  case (1 n)
  show ?case
  proof (cases "n < 10")
    case True
    then show ?thesis
      by (simp add: number_toString.simps [of n] digits.simps [of n])
  next
    case False
    with "1.IH" show ?thesis
      by (simp add: number_toString.simps [of n] digits.simps [of n])
  qed
qed

lemma decimal_value_snoc: "decimal_value (ds @ [d]) = 10 * decimal_value ds + d"
  by (simp add: decimal_value_def)

lemma decimal_value_pos:
  "ds \<noteq> [] \<Longrightarrow> hd ds \<noteq> 0 \<Longrightarrow> 0 < decimal_value ds"
proof (induction ds rule: rev_induct)
  case Nil
  then show ?case by simp
next
  case (snoc d ds)
  show ?case
  proof (cases "ds = []")
    case True
    with snoc.prems show ?thesis by (simp add: decimal_value_def)
  next
    case False
    with snoc have "0 < decimal_value ds" by simp
    then show ?thesis by (simp add: decimal_value_snoc)
  qed
qed

lemma minimal_decimal_unique:
  "minimal_decimal ds n \<Longrightarrow> ds = digits n"
proof (induction ds arbitrary: n rule: rev_induct)
  case Nil
  then show ?case by (simp add: minimal_decimal_def)
next
  case (snoc d ds)
  from snoc.prems have d: "d < 10" and all: "list_all (\<lambda>d. d < 10) ds"
    and n: "n = 10 * decimal_value ds + d"
    by (simp_all add: minimal_decimal_def decimal_value_snoc)
  show ?case
  proof (cases "ds = []")
    case True
    with n d show ?thesis
      by (simp add: decimal_value_def digits.simps [of d])
  next
    case False
    with snoc.prems have hd: "hd ds \<noteq> 0"
      by (auto simp: minimal_decimal_def)
    with False all have "minimal_decimal ds (decimal_value ds)"
      by (simp add: minimal_decimal_def)
    then have ih: "ds = digits (decimal_value ds)"
      by (rule snoc.IH)
    have "0 < decimal_value ds"
      using False hd by (rule decimal_value_pos)
    with n d have "\<not> n < 10" and "n div 10 = decimal_value ds" and "n mod 10 = d"
      by simp_all
    with ih show ?thesis
      by (simp add: digits.simps [of n])
  qed
qed

lemma digits_minimal: "minimal_decimal (digits n) n"
proof (induction n rule: digits.induct)
  case (1 n)
  show ?case
  proof (cases "n < 10")
    case True
    then show ?thesis
      by (auto simp: digits.simps [of n] minimal_decimal_def decimal_value_def)
  next
    case False
    from "1.IH" [OF False] have ih: "minimal_decimal (digits (n div 10)) (n div 10)" .
    from False have pos: "0 < n div 10" by simp
    have nz: "hd (digits (n div 10)) \<noteq> 0"
    proof
      assume "hd (digits (n div 10)) = 0"
      with ih have "digits (n div 10) = [0]" by (simp add: minimal_decimal_def)
      with ih have "n div 10 = 0" by (simp add: minimal_decimal_def decimal_value_def)
      with pos show False by simp
    qed
    from ih nz show ?thesis
      by (simp add: digits.simps [of n] minimal_decimal_def decimal_value_snoc False)
  qed
qed

lemma digits_lt_10: "list_all (\<lambda>d. d < 10) (digits n)"
  using digits_minimal [of n] by (simp add: minimal_decimal_def)

lemma chunk_info_ascii:
  "list_all (\<lambda>u. unat u < 128) (ascii ''chunk-'' @ number_toString i)"
proof -
  have "list_all (\<lambda>u :: 16 word. unat u < 128) (map (\<lambda>d. of_nat (48 + d)) ds)"
    if "list_all (\<lambda>d. d < 10) ds" for ds
    using that by (induction ds) (simp_all add: unat_of_nat del: of_nat_add)
  then show ?thesis
    by (simp add: number_toString_digits digits_lt_10 ascii_def)
qed

lemma chunk_info_bytes:
  "utf8_encode (ascii ''chunk-'' @ number_toString i)
     = map of_char ''chunk-'' @ map (\<lambda>d. of_nat (48 + d)) (digits i)"
proof -
  have conv: "map ucast (map (\<lambda>d. of_nat (48 + d) :: 16 word) ds)
                = map (\<lambda>d. of_nat (48 + d) :: byte) ds"
    if "list_all (\<lambda>d. d < 10) ds" for ds
    using that
    by (induction ds) (simp_all add: unsigned_of_nat take_bit_nat_eq_self del: of_nat_add)
  have e1: "utf8_encode (ascii ''chunk-'' @ number_toString i)
              = map ucast (ascii ''chunk-'' @ number_toString i)"
    by (rule utf8_encode_ascii [OF chunk_info_ascii])
  have e2: "map ucast (ascii ''chunk-'') = (map of_char ''chunk-'' :: bytes)"
    by (simp add: ascii_def)
  have e3: "map ucast (number_toString i) = map (\<lambda>d. of_nat (48 + d) :: byte) (digits i)"
    using conv [OF digits_lt_10, of i] by (simp only: number_toString_digits)
  show ?thesis
    by (simp only: e1 map_append e2 e3)
qed

lemma deriveChunkKey_eq:
  "deriveChunkKey pf masterKey i
     = Inr (sha256 pf (masterKey @ utf8_encode (ascii ''chunk-'' @ number_toString i)))"
proof -
  let ?info = "utf8_encode (ascii ''chunk-'' @ number_toString i)"
  have 1: "write_at (replicate (length masterKey + length ?info) 0) 0 masterKey
             = Inr (masterKey @ replicate (length ?info) 0)"
    using write_at_zeros [of "[]" 0 masterKey "length masterKey + length ?info"] by simp
  have 2: "write_at (masterKey @ replicate (length ?info) 0) (length masterKey) ?info
             = Inr (masterKey @ ?info)"
    using write_at_zeros [of masterKey "length masterKey" ?info "length ?info"] by simp
  show ?thesis
    by (simp add: deriveChunkKey_def Let_def 1 2)
qed

text \<open>
  Claim C7. For every 32-byte master secret and every chunk index below \<open>2^32\<close>,
  \<^verbatim>\<open>deriveChunkKey\<close> returns, without raising, the SHA-256 digest of the master secret
  followed by the ASCII bytes of \<^verbatim>\<open>chunk-\<close> and the ASCII digits of the minimal decimal
  notation of the index.
\<close>

theorem deriveChunkKey_spec:
  assumes "length masterSecret = 32" and "i < 2 ^ 32" and "minimal_decimal ds i"
  shows "deriveChunkKey pf masterSecret i
           = Inr (sha256 pf (masterSecret @ map of_char ''chunk-'' @ map (\<lambda>d. of_nat (48 + d)) ds))"
proof -
  have "ds = digits i"
    using assms(3) by (rule minimal_decimal_unique)
  then show ?thesis
    by (simp only: deriveChunkKey_eq chunk_info_bytes)
qed


theorem deriveChunkKey_spec_witness:
  "length (replicate 32 (7 :: byte)) = 32 \<and> (42 :: nat) < 2 ^ 32 \<and> minimal_decimal [4, 2] 42
   \<and> deriveChunkKey sample_platform (replicate 32 7) 42
       = Inr (sha256 sample_platform
                (replicate 32 7 @ map of_char ''chunk-'' @ map (\<lambda>d. of_nat (48 + d)) [4, 2]))"
proof -
  have a: "length (replicate 32 (7 :: byte)) = 32" by simp
  have b: "(42 :: nat) < 2 ^ 32" by simp
  have c: "minimal_decimal [4, 2] 42"
    by (simp add: minimal_decimal_def decimal_value_def)
  show ?thesis
    using a b c deriveChunkKey_spec [OF a b c, of sample_platform]
    by (intro conjI)
qed

subsection \<open>Serializing and parsing a header\<close>

text \<open>
  What parsing gives back from a serialized header: the header itself, but for the file
  name, which is what the decoder makes of its UTF-8 bytes.
\<close>

lemma header_round_trip_name:
  fixes h :: FileHeader
  assumes "magic h = MAGIC_BYTES"
    and "version h < 2 ^ 16" and "kdfMemory h < 2 ^ 32" and "kdfIterations h < 2 ^ 32"
    and "kdfParallelism h < 2 ^ 8" and "chunkSize h < 2 ^ 32" and "originalSize h < 2 ^ 32"
    and "totalChunks h < 2 ^ 32"
    and "length (salt h) = 32"
    and "length (utf8_encode (originalFilename h)) \<le> 65535"
  shows "serializeHeader h = Inr (header_layout h)"
    and "deserializeHeader pf (header_layout h)
           = Inr (h\<lparr>originalFilename :=
                      text_decode pf (utf8_encode (originalFilename h))\<rparr>)"
proof -
  have len: "length (magic h) = 4"
    using assms(1) by (simp add: MAGIC_BYTES_def)
  show "serializeHeader h = Inr (header_layout h)"
    using len assms(9) by (rule serializeHeader_layout)
  have kdf: "kdf h = Argon2id"
    by (cases "kdf h") simp
  show "deserializeHeader pf (header_layout h)
          = Inr (h\<lparr>originalFilename := text_decode pf (utf8_encode (originalFilename h))\<rparr>)"
    unfolding header_layout_def
    using assms(2-8,10) kdf
    by (simp add: deserializeHeader_fixed [OF assms(1,9)])
qed

lemma utf8_encode_bom_a: "utf8_encode [65279, 97] = [239, 187, 191, 97]"
  by (simp add: utf8_encode_def utf8_bytes_def is_high_surrogate_def is_low_surrogate_def)

lemma sample_text_decode_bom:
  "text_decode sample_platform [239, 187, 191, 97] = [97]"
  by (simp add: sample_platform_def)

text \<open>
  Claim C9, on the code. The header of \<^verbatim>\<open>hello.txt\<close> with the file name U+FEFF
  \<^verbatim>\<open>a\<close> instead meets every condition of the claim: the magic is \<^verbatim>\<open>SKTA\<close>, the
  algorithm AES-GCM, the numeric fields are within their widths, the salt has 32 bytes
  and the name is a well-formed string of four bytes in UTF-8 (EF BB BF 61).
  \<^verbatim>\<open>serializeHeader\<close> stores these four bytes, and \<^verbatim>\<open>deserializeHeader\<close> returns the
  name \<^verbatim>\<open>a\<close>: \<^verbatim>\<open>new TextDecoder()\<close> takes the first three bytes for a byte order mark
  and drops them. The header that comes back is not the one that was serialized.
\<close>

theorem bom_name_not_restored:
  "magic bom_header = MAGIC_BYTES \<and> algorithm bom_header = AES_GCM
   \<and> version bom_header < 2 ^ 16 \<and> kdfMemory bom_header < 2 ^ 32
   \<and> kdfIterations bom_header < 2 ^ 32 \<and> kdfParallelism bom_header < 2 ^ 8
   \<and> chunkSize bom_header < 2 ^ 32 \<and> originalSize bom_header < 2 ^ 32
   \<and> totalChunks bom_header < 2 ^ 32 \<and> length (salt bom_header) = 32
   \<and> originalFilename bom_header = [65279, 97]
   \<and> utf8_encode (originalFilename bom_header) = [239, 187, 191, 97]
   \<and> (case serializeHeader bom_header of
         Inl e \<Rightarrow> False
       | Inr headerBytes \<Rightarrow>
           length headerBytes = 67 \<and> drop 63 headerBytes = [239, 187, 191, 97]
           \<and> deserializeHeader sample_platform headerBytes
               = Inr (bom_header\<lparr>originalFilename := [97]\<rparr>)
           \<and> bom_header\<lparr>originalFilename := [97]\<rparr> \<noteq> bom_header)"
proof -
  have c: "magic bom_header = MAGIC_BYTES" "version bom_header < 2 ^ 16"
    "kdfMemory bom_header < 2 ^ 32" "kdfIterations bom_header < 2 ^ 32"
    "kdfParallelism bom_header < 2 ^ 8" "chunkSize bom_header < 2 ^ 32"
    "originalSize bom_header < 2 ^ 32" "totalChunks bom_header < 2 ^ 32"
    "length (salt bom_header) = 32"
    "length (utf8_encode (originalFilename bom_header)) \<le> 65535"
    by (simp_all add: bom_header_def hello_header_def FORMAT_VERSION_def CHUNK_SIZE_def
          utf8_encode_bom_a)
  have a: "algorithm bom_header = AES_GCM"
    and n: "originalFilename bom_header = [65279, 97]"
    by (simp_all add: bom_header_def hello_header_def)
  have u: "utf8_encode (originalFilename bom_header) = [239, 187, 191, 97]"
    by (simp add: n utf8_encode_bom_a)
  have m4: "length (magic bom_header) = 4"
    by (simp add: c(1) MAGIC_BYTES_def)
  have len: "length (header_layout bom_header) = 67"
    using length_header_layout [OF m4 c(9)] by (simp add: u)
  have tail: "drop 63 (header_layout bom_header) = [239, 187, 191, 97]"
    using length_header_fixed [OF m4 c(9)] by (simp add: header_layout_def u)
  have ne: "bom_header\<lparr>originalFilename := [97]\<rparr> \<noteq> bom_header"
  proof
    assume "bom_header\<lparr>originalFilename := [97]\<rparr> = bom_header"
    then have "originalFilename (bom_header\<lparr>originalFilename := [97]\<rparr>)
                 = originalFilename bom_header"
      by (rule arg_cong)
    then show False by (simp add: n)
  qed
  have par: "deserializeHeader sample_platform (header_layout bom_header)
               = Inr (bom_header\<lparr>originalFilename := [97]\<rparr>)"
    using header_round_trip_name(2) [OF c, of sample_platform]
    by (simp add: u sample_text_decode_bom)
  show ?thesis
    using c(1-9) a n u len tail par ne
    by (simp add: header_round_trip_name(1) [OF c])
qed

end
